theory Spec2Isabelle
  imports Main
begin

section \<open>Source text, lines and issues\<close>

text \<open>
  The scanner of \<^verbatim>\<open>src/lib/scanner.js\<close> works on the text of one file
  (\<^verbatim>\<open>content\<close>), the array \<^verbatim>\<open>lines = content.split('\n')\<close> and the tree the
  parser returns. A JavaScript string is a sequence of code units; the text is modelled as
  a \<^typ>\<open>string\<close>, one \<^typ>\<open>char\<close> per code unit, which covers the code units below 256.
  Offsets into the text and line numbers are natural numbers.
\<close>

definition newline :: char where
  "newline = CHR 0x0A"

text \<open>\<^verbatim>\<open>s.split('\n')\<close>: the pieces between the newlines; never the empty array.\<close>

fun split_newline :: "string \<Rightarrow> string list" where
  "split_newline [] = [[]]"
| "split_newline (c # cs) =
     (if c = newline then [] # split_newline cs
      else (case split_newline cs of
              [] \<Rightarrow> [[c]]
            | l # ls \<Rightarrow> (c # l) # ls))"

text \<open>
  \<^verbatim>\<open>
  function getLineNumberFromIndex(content, index) {
    const lines = content.slice(0, index).split('\n');
    return lines.length;
  }
  \<close>
  \<^verbatim>\<open>slice(0, index)\<close> with \<^verbatim>\<open>index\<close> beyond the end yields the whole text, as
  \<^const>\<open>take\<close> does.
\<close>

definition getLineNumberFromIndex :: "string \<Rightarrow> nat \<Rightarrow> nat" where
  "getLineNumberFromIndex content index = length (split_newline (take index content))"

text \<open>
  \<^verbatim>\<open>lines[line - 1] || ''\<close>: the element when \<^verbatim>\<open>line - 1\<close> is an index of the array,
  otherwise \<^verbatim>\<open>undefined\<close>, which \<^verbatim>\<open>||\<close> turns into the empty string (as it does an
  empty line).
\<close>

definition lineOrEmpty :: "string list \<Rightarrow> nat \<Rightarrow> string" where
  "lineOrEmpty lines line =
     (if 1 \<le> line \<and> line - 1 < length lines then lines ! (line - 1) else [])"

text \<open>
  The decimal digits a template literal \<^verbatim>\<open>${n}\<close> prints for an integer (line numbers
  and line counts are far below the magnitudes at which JavaScript changes notation).
\<close>

definition digitChar :: "nat \<Rightarrow> char" where
  "digitChar d = ''0123456789'' ! (d mod 10)"

fun showNat :: "nat \<Rightarrow> string" where
  "showNat n = (if n < 10 then [digitChar n] else showNat (n div 10) @ [digitChar (n mod 10)])"

declare showNat.simps [simp del]

definition showInt :: "int \<Rightarrow> string" where
  "showInt i = (if i < 0 then CHR ''-'' # showNat (nat (- i)) else showNat (nat i))"

text \<open>\<^verbatim>\<open>s.includes(t)\<close>: \<open>t\<close> occurs in \<open>s\<close> as a contiguous piece.\<close>

fun str_includes :: "string \<Rightarrow> string \<Rightarrow> bool" where
  "str_includes [] t = (t = [])"
| "str_includes (c # cs) t = (take (length t) (c # cs) = t \<or> str_includes cs t)"

text \<open>
  The object every detector pushes:
  \<^verbatim>\<open>{ type, filePath, line, message, code }\<close>.
\<close>

record issue =
  type :: string
  filePath :: string
  line :: nat
  message :: string
  code :: string


section \<open>The syntax tree\<close>

text \<open>
  The tree comes from the parser (\<^verbatim>\<open>acorn.parse\<close>, ESTree node objects). The node
  types modelled are those the detectors consume, with the statement and expression forms
  needed to build programs around them. Every node object carries \<^verbatim>\<open>type\<close>,
  \<^verbatim>\<open>start\<close> and \<^verbatim>\<open>end\<close>; the other arguments of a constructor are its child
  properties in the order the parser assigns them:

  \<^item> \<open>Program body\<close>, \<open>BlockStatement body\<close>, \<open>ExpressionStatement expression\<close>,
    \<open>ReturnStatement argument\<close>;
  \<^item> \<open>IfStatement test consequent alternate\<close>, \<open>ForStatement init test update body\<close>,
    \<open>WhileStatement test body\<close>, \<open>DoWhileStatement body test\<close>,
    \<open>ForInStatement left right body\<close>, \<open>ForOfStatement left right body\<close>;
  \<^item> \<open>VariableDeclaration declarations\<close>, \<open>VariableDeclarator id init\<close>;
  \<^item> \<open>FunctionDeclaration id params body\<close>, \<open>FunctionExpression id params body\<close>,
    \<open>ArrowFunctionExpression params body\<close> (its \<^verbatim>\<open>id\<close> is always \<^verbatim>\<open>null\<close>);
  \<^item> \<open>Identifier name\<close>, \<open>Literal\<close>, \<open>CallExpression callee arguments\<close>,
    \<open>MemberExpression object property computed\<close>, \<open>AssignmentExpression left right\<close>,
    \<open>BinaryExpression left right\<close>, \<open>ObjectExpression properties\<close>,
    \<open>Property key value computed\<close>, \<open>ArrayPattern elements\<close> (without holes).

  A property holding \<^verbatim>\<open>null\<close> is \<^const>\<open>None\<close>.
\<close>

datatype node =
    Program (nstart: nat) (nend: nat) "node list"
  | ExpressionStatement (nstart: nat) (nend: nat) node
  | BlockStatement (nstart: nat) (nend: nat) "node list"
  | ReturnStatement (nstart: nat) (nend: nat) "node option"
  | IfStatement (nstart: nat) (nend: nat) node node "node option"
  | ForStatement (nstart: nat) (nend: nat) "node option" "node option" "node option" node
  | WhileStatement (nstart: nat) (nend: nat) node node
  | DoWhileStatement (nstart: nat) (nend: nat) node node
  | ForInStatement (nstart: nat) (nend: nat) node node node
  | ForOfStatement (nstart: nat) (nend: nat) node node node
  | VariableDeclaration (nstart: nat) (nend: nat) "node list"
  | VariableDeclarator (nstart: nat) (nend: nat) node "node option"
  | FunctionDeclaration (nstart: nat) (nend: nat) "node option" "node list" node
  | FunctionExpression (nstart: nat) (nend: nat) "node option" "node list" node
  | ArrowFunctionExpression (nstart: nat) (nend: nat) "node list" node
  | Identifier (nstart: nat) (nend: nat) string
  | Literal (nstart: nat) (nend: nat)
  | CallExpression (nstart: nat) (nend: nat) node "node list"
  | MemberExpression (nstart: nat) (nend: nat) node node bool
  | AssignmentExpression (nstart: nat) (nend: nat) node node
  | BinaryExpression (nstart: nat) (nend: nat) node node
  | ObjectExpression (nstart: nat) (nend: nat) "node list"
  | Property (nstart: nat) (nend: nat) node node bool
  | ArrayPattern (nstart: nat) (nend: nat) "node list"

text \<open>\<^verbatim>\<open>node.type\<close>\<close>

fun ntype :: "node \<Rightarrow> string" where
  "ntype (Program s e b) = ''Program''"
| "ntype (ExpressionStatement s e x) = ''ExpressionStatement''"
| "ntype (BlockStatement s e b) = ''BlockStatement''"
| "ntype (ReturnStatement s e a) = ''ReturnStatement''"
| "ntype (IfStatement s e t c a) = ''IfStatement''"
| "ntype (ForStatement s e i t u b) = ''ForStatement''"
| "ntype (WhileStatement s e t b) = ''WhileStatement''"
| "ntype (DoWhileStatement s e b t) = ''DoWhileStatement''"
| "ntype (ForInStatement s e l r b) = ''ForInStatement''"
| "ntype (ForOfStatement s e l r b) = ''ForOfStatement''"
| "ntype (VariableDeclaration s e ds) = ''VariableDeclaration''"
| "ntype (VariableDeclarator s e i x) = ''VariableDeclarator''"
| "ntype (FunctionDeclaration s e i ps b) = ''FunctionDeclaration''"
| "ntype (FunctionExpression s e i ps b) = ''FunctionExpression''"
| "ntype (ArrowFunctionExpression s e ps b) = ''ArrowFunctionExpression''"
| "ntype (Identifier s e n) = ''Identifier''"
| "ntype (Literal s e) = ''Literal''"
| "ntype (CallExpression s e f as) = ''CallExpression''"
| "ntype (MemberExpression s e ob p c) = ''MemberExpression''"
| "ntype (AssignmentExpression s e l r) = ''AssignmentExpression''"
| "ntype (BinaryExpression s e l r) = ''BinaryExpression''"
| "ntype (ObjectExpression s e ps) = ''ObjectExpression''"
| "ntype (Property s e k v c) = ''Property''"
| "ntype (ArrayPattern s e es) = ''ArrayPattern''"

text \<open>
  \<^verbatim>\<open>node.id\<close> and \<^verbatim>\<open>node.name\<close>, for the node types that have the property;
  \<^const>\<open>None\<close> stands for \<^verbatim>\<open>null\<close> and for \<^verbatim>\<open>undefined\<close>.
\<close>

fun nodeId :: "node \<Rightarrow> node option" where
  "nodeId (VariableDeclarator s e i x) = Some i"
| "nodeId (FunctionDeclaration s e i ps b) = i"
| "nodeId (FunctionExpression s e i ps b) = i"
| "nodeId _ = None"

fun nodeName :: "node \<Rightarrow> string option" where
  "nodeName (Identifier s e n) = Some n"
| "nodeName _ = None"

text \<open>
  The properties of a node object whose value is a non-null object, in the order in which
  \<^verbatim>\<open>for (const key in node)\<close> enumerates them (the order of assignment): an array
  of nodes or a single node. The property \<^verbatim>\<open>loc\<close> is an object too; it is neither an
  array nor one of the keys the nesting walk follows, so it is left out.
\<close>

datatype slot = Single node | Array "node list"

fun optProp :: "string \<Rightarrow> node option \<Rightarrow> (string \<times> slot) list" where
  "optProp key None = []"
| "optProp key (Some n) = [(key, Single n)]"

fun objectProps :: "node \<Rightarrow> (string \<times> slot) list" where
  "objectProps (Program s e b) = [(''body'', Array b)]"
| "objectProps (ExpressionStatement s e x) = [(''expression'', Single x)]"
| "objectProps (BlockStatement s e b) = [(''body'', Array b)]"
| "objectProps (ReturnStatement s e a) = optProp ''argument'' a"
| "objectProps (IfStatement s e t c a) =
     [(''test'', Single t), (''consequent'', Single c)] @ optProp ''alternate'' a"
| "objectProps (ForStatement s e i t u b) =
     optProp ''init'' i @ optProp ''test'' t @ optProp ''update'' u @ [(''body'', Single b)]"
| "objectProps (WhileStatement s e t b) = [(''test'', Single t), (''body'', Single b)]"
| "objectProps (DoWhileStatement s e b t) = [(''body'', Single b), (''test'', Single t)]"
| "objectProps (ForInStatement s e l r b) =
     [(''left'', Single l), (''right'', Single r), (''body'', Single b)]"
| "objectProps (ForOfStatement s e l r b) =
     [(''left'', Single l), (''right'', Single r), (''body'', Single b)]"
| "objectProps (VariableDeclaration s e ds) = [(''declarations'', Array ds)]"
| "objectProps (VariableDeclarator s e i x) = [(''id'', Single i)] @ optProp ''init'' x"
| "objectProps (FunctionDeclaration s e i ps b) =
     optProp ''id'' i @ [(''params'', Array ps), (''body'', Single b)]"
| "objectProps (FunctionExpression s e i ps b) =
     optProp ''id'' i @ [(''params'', Array ps), (''body'', Single b)]"
| "objectProps (ArrowFunctionExpression s e ps b) =
     [(''params'', Array ps), (''body'', Single b)]"
| "objectProps (Identifier s e n) = []"
| "objectProps (Literal s e) = []"
| "objectProps (CallExpression s e f as) = [(''callee'', Single f), (''arguments'', Array as)]"
| "objectProps (MemberExpression s e ob p c) = [(''object'', Single ob), (''property'', Single p)]"
| "objectProps (AssignmentExpression s e l r) = [(''left'', Single l), (''right'', Single r)]"
| "objectProps (BinaryExpression s e l r) = [(''left'', Single l), (''right'', Single r)]"
| "objectProps (ObjectExpression s e ps) = [(''properties'', Array ps)]"
| "objectProps (Property s e k v c) = [(''key'', Single k), (''value'', Single v)]"
| "objectProps (ArrayPattern s e es) = [(''elements'', Array es)]"

fun slotNodes :: "slot \<Rightarrow> node list" where
  "slotNodes (Single n) = [n]"
| "slotNodes (Array ns) = ns"

lemma size_list_member: "x \<in> set xs \<Longrightarrow> size x < Suc (size_list size xs)"
  by (induction xs) auto

lemma optProp_member:
  "(k, sl) \<in> set (optProp key a) \<Longrightarrow> c \<in> set (slotNodes sl) \<Longrightarrow> a = Some c"
  by (cases a) auto

lemma objectProps_smaller:
  "(k, sl) \<in> set (objectProps n) \<Longrightarrow> c \<in> set (slotNodes sl) \<Longrightarrow> size c < size n"
  by (cases n) (auto dest: size_list_member optProp_member)

section \<open>The tree walker\<close>

text \<open>
  Four detectors traverse the tree with \<^verbatim>\<open>walk.simple\<close> and \<^verbatim>\<open>walk.ancestor\<close> of
  the library \<^verbatim>\<open>acorn-walk\<close>, which is not part of the repository. Both call, for a
  node, the library's base visitor of the node's type (or of an override such as
  \<^verbatim>\<open>"Statement"\<close>, \<^verbatim>\<open>"Expression"\<close>, \<^verbatim>\<open>"Pattern"\<close>), which walks the children, and
  then the caller's visitor registered under that type name:
  \<^verbatim>\<open>
  export function simple(node, visitors, baseVisitor, state, override) {
    if (!baseVisitor) baseVisitor = base
    ;(function c(node, st, override) {
      let type = override || node.type
      baseVisitor[type](node, st, c)
      if (visitors[type]) visitors[type](node, st)
    })(node, state, override)
  }
  export function ancestor(node, visitors, baseVisitor, state, override) {
    let ancestors = []
    if (!baseVisitor) baseVisitor = base
    ;(function c(node, st, override) {
      let type = override || node.type
      let isNew = node !== ancestors[ancestors.length - 1]
      if (isNew) ancestors.push(node)
      baseVisitor[type](node, st, c)
      if (visitors[type]) visitors[type](node, st || ancestors, ancestors)
      if (isNew) ancestors.pop()
    })(node, state, override)
  }
  \<close>
  The base visitor is given as the list of calls \<^verbatim>\<open>c(child, st, override)\<close> it makes,
  in order. \<^verbatim>\<open>skipThrough\<close> (for \<^verbatim>\<open>Statement\<close>, \<^verbatim>\<open>Expression\<close>,
  \<^verbatim>\<open>MemberPattern\<close>) calls \<^verbatim>\<open>c(node, st)\<close>; \<^verbatim>\<open>ignore\<close> makes no call.
\<close>

datatype override = Statement | Expression | Pattern | VariablePattern | MemberPattern | ForInit | Function

fun overrideName :: "override \<Rightarrow> string" where
  "overrideName Statement = ''Statement''"
| "overrideName Expression = ''Expression''"
| "overrideName Pattern = ''Pattern''"
| "overrideName VariablePattern = ''VariablePattern''"
| "overrideName MemberPattern = ''MemberPattern''"
| "overrideName ForInit = ''ForInit''"
| "overrideName Function = ''Function''"

fun walkType :: "node \<Rightarrow> override option \<Rightarrow> string" where
  "walkType node None = ntype node"
| "walkType node (Some ov) = overrideName ov"
fun optCall :: "node option \<Rightarrow> override option \<Rightarrow> (node \<times> override option) list" where
  "optCall None ov = []"
| "optCall (Some n) ov = [(n, ov)]"

fun baseFunction :: "node \<Rightarrow> (node \<times> override option) list" where
  "baseFunction (FunctionDeclaration s e i ps b) =
     optCall i (Some Pattern) @ map (\<lambda>p. (p, Some Pattern)) ps @ [(b, Some Statement)]"
| "baseFunction (FunctionExpression s e i ps b) =
     optCall i (Some Pattern) @ map (\<lambda>p. (p, Some Pattern)) ps @ [(b, Some Statement)]"
| "baseFunction (ArrowFunctionExpression s e ps b) =
     map (\<lambda>p. (p, Some Pattern)) ps @ [(b, Some Statement)]"
| "baseFunction _ = []"

text \<open>
  \<^verbatim>\<open>base.Function\<close> above walks \<^verbatim>\<open>id\<close> and the parameters as patterns and then the
  body (as \<^verbatim>\<open>"Expression"\<close> for an arrow function with an expression body, as
  \<^verbatim>\<open>"Statement"\<close> otherwise; both skip through to the body's own type, so one
  override stands for both). The base visitors by node type:
\<close>

fun baseNode :: "node \<Rightarrow> (node \<times> override option) list" where
  "baseNode (Program s e b) = map (\<lambda>stmt. (stmt, Some Statement)) b"
| "baseNode (BlockStatement s e b) = map (\<lambda>stmt. (stmt, Some Statement)) b"
| "baseNode (ExpressionStatement s e x) = [(x, Some Expression)]"
| "baseNode (ReturnStatement s e a) = optCall a (Some Expression)"
| "baseNode (IfStatement s e t c a) =
     [(t, Some Expression), (c, Some Statement)] @ optCall a (Some Statement)"
| "baseNode (ForStatement s e i t u b) =
     optCall i (Some ForInit) @ optCall t (Some Expression) @ optCall u (Some Expression) @
     [(b, Some Statement)]"
| "baseNode (WhileStatement s e t b) = [(t, Some Expression), (b, Some Statement)]"
| "baseNode (DoWhileStatement s e b t) = [(t, Some Expression), (b, Some Statement)]"
| "baseNode (ForInStatement s e l r b) =
     [(l, Some ForInit), (r, Some Expression), (b, Some Statement)]"
| "baseNode (ForOfStatement s e l r b) =
     [(l, Some ForInit), (r, Some Expression), (b, Some Statement)]"
| "baseNode (VariableDeclaration s e ds) = map (\<lambda>decl. (decl, None)) ds"
| "baseNode (VariableDeclarator s e i x) = [(i, Some Pattern)] @ optCall x (Some Expression)"
| "baseNode (FunctionDeclaration s e i ps b) =
     [(FunctionDeclaration s e i ps b, Some Function)]"
| "baseNode (FunctionExpression s e i ps b) =
     [(FunctionExpression s e i ps b, Some Function)]"
| "baseNode (ArrowFunctionExpression s e ps b) =
     [(ArrowFunctionExpression s e ps b, Some Function)]"
| "baseNode (Identifier s e n) = []"
| "baseNode (Literal s e) = []"
| "baseNode (CallExpression s e f as) =
     (f, Some Expression) # map (\<lambda>arg. (arg, Some Expression)) as"
| "baseNode (MemberExpression s e ob p c) =
     (ob, Some Expression) # (if c then [(p, Some Expression)] else [])"
| "baseNode (AssignmentExpression s e l r) = [(l, Some Pattern), (r, Some Expression)]"
| "baseNode (BinaryExpression s e l r) = [(l, Some Expression), (r, Some Expression)]"
| "baseNode (ObjectExpression s e ps) = map (\<lambda>prop. (prop, None)) ps"
| "baseNode (Property s e k v c) =
     (if c then [(k, Some Expression)] else []) @ [(v, Some Expression)]"
| "baseNode (ArrayPattern s e es) = map (\<lambda>elt. (elt, Some Pattern)) es"

text \<open>
  The base visitor of the type under which a node is walked. \<^verbatim>\<open>base.Pattern\<close> sends an
  identifier on as \<^verbatim>\<open>"VariablePattern"\<close> (ignored), a member expression as
  \<^verbatim>\<open>"MemberPattern"\<close>, anything else under its own type; \<^verbatim>\<open>base.ForInit\<close> sends a
  variable declaration on under its own type and anything else as an expression.
\<close>

fun baseVisitor :: "node \<Rightarrow> override option \<Rightarrow> (node \<times> override option) list" where
  "baseVisitor node None = baseNode node"
| "baseVisitor node (Some Statement) = [(node, None)]"
| "baseVisitor node (Some Expression) = [(node, None)]"
| "baseVisitor node (Some MemberPattern) = [(node, None)]"
| "baseVisitor node (Some VariablePattern) = []"
| "baseVisitor node (Some Pattern) =
     (if ntype node = ''Identifier'' then [(node, Some VariablePattern)]
      else if ntype node = ''MemberExpression'' then [(node, Some MemberPattern)]
      else [(node, None)])"
| "baseVisitor node (Some ForInit) =
     (if ntype node = ''VariableDeclaration'' then [(node, None)]
      else [(node, Some Expression)])"
| "baseVisitor node (Some Function) = baseFunction node"

fun overrideRank :: "override option \<Rightarrow> nat" where
  "overrideRank (Some Function) = 0"
| "overrideRank None = 1"
| "overrideRank (Some Statement) = 2"
| "overrideRank (Some Expression) = 2"
| "overrideRank (Some MemberPattern) = 2"
| "overrideRank (Some VariablePattern) = 2"
| "overrideRank (Some Pattern) = 3"
| "overrideRank (Some ForInit) = 3"

definition walkMeasure :: "node \<Rightarrow> override option \<Rightarrow> nat" where
  "walkMeasure node ov = 4 * size node + overrideRank ov"

lemma optCall_member: "(c, ov') \<in> set (optCall a ov) \<Longrightarrow> a = Some c \<and> ov' = ov"
  by (cases a) auto

lemma baseFunction_smaller:
  "(c, ov') \<in> set (baseFunction n) \<Longrightarrow> size c < size n"
  by (cases n) (auto dest: size_list_member optCall_member)

lemma baseNode_smaller:
  "(c, ov') \<in> set (baseNode n) \<Longrightarrow> size c < size n \<or> (c = n \<and> ov' = Some Function)"
  by (cases n) (auto dest: size_list_member optCall_member split: if_splits)

lemma overrideRank_le: "overrideRank ov \<le> 3"
  by (rule overrideRank.cases[of ov]) auto

lemma baseVisitor_decreases:
  assumes "(c, ov') \<in> set (baseVisitor n ov)"
  shows "walkMeasure c ov' < walkMeasure n ov"
proof (cases ov)
  case None
  with assms have "size c < size n \<or> (c = n \<and> ov' = Some Function)"
    using baseNode_smaller[of c ov' n] by simp
  then show ?thesis
    using None overrideRank_le[of ov'] by (auto simp: walkMeasure_def)
next
  case (Some o1)
  show ?thesis
  proof (cases o1)
    case Function
    with assms Some have "size c < size n"
      using baseFunction_smaller[of c ov' n] by simp
    then show ?thesis
      using overrideRank_le[of ov'] by (simp add: walkMeasure_def)
  qed (use assms Some in \<open>auto simp: walkMeasure_def split: if_splits\<close>)
qed

text \<open>
  \<^verbatim>\<open>walk.simple\<close>: the inner function \<^verbatim>\<open>c\<close>. The visitors are the caller's object,
  a lookup by type name; the state is whatever the callbacks update (they close over it in
  the source).
\<close>

function simple_c :: "(string \<Rightarrow> (node \<Rightarrow> 's \<Rightarrow> 's) option) \<Rightarrow> node \<Rightarrow> override option \<Rightarrow> 's \<Rightarrow> 's" where
  "simple_c visitors node ov st =
     (let st1 = fold (\<lambda>(child, ov') s. simple_c visitors child ov' s) (baseVisitor node ov) st
      in case visitors (walkType node ov) of
           Some visit \<Rightarrow> visit node st1
         | None \<Rightarrow> st1)"
  by pat_completeness auto
termination
  apply (relation "measure (\<lambda>(v, n, ov, st). walkMeasure n ov)")
  apply (auto dest: baseVisitor_decreases)
  done

text \<open>
  \<^verbatim>\<open>walk.ancestor\<close>: the same walk with the stack of ancestors, which ends with the
  node itself when the visitor is called. The test \<^verbatim>\<open>node !== ancestors[...]\<close> compares
  object identities and fails exactly when \<^verbatim>\<open>c\<close> is called again on the same node
  under another type; equality of nodes stands for it, a node never being equal to one of
  its own descendants. The same holds for the other comparisons of node objects below: the
  parser gives two different nodes of one type different source ranges.
\<close>

function ancestor_c :: "(string \<Rightarrow> (node \<Rightarrow> node list \<Rightarrow> 's \<Rightarrow> 's) option) \<Rightarrow> node \<Rightarrow> override option \<Rightarrow> node list \<Rightarrow> 's \<Rightarrow> 's" where
  "ancestor_c visitors node ov ancestors st =
     (let isNew = (ancestors = [] \<or> node \<noteq> last ancestors);
          ancestors1 = (if isNew then ancestors @ [node] else ancestors);
          st1 = fold (\<lambda>(child, ov') s. ancestor_c visitors child ov' ancestors1 s)
                  (baseVisitor node ov) st
      in case visitors (walkType node ov) of
           Some visit \<Rightarrow> visit node ancestors1 st1
         | None \<Rightarrow> st1)"
  by pat_completeness auto
termination
  apply (relation "measure (\<lambda>(v, n, ov, an, st). walkMeasure n ov)")
  apply (auto dest: baseVisitor_decreases)
  done

text \<open>
  \<^verbatim>\<open>walk.simple(ast, visitors)\<close> is \<open>simple_c visitors ast None\<close> applied to the state
  the callbacks start from, and \<^verbatim>\<open>walk.ancestor(ast, visitors)\<close> is
  \<open>ancestor_c visitors ast None []\<close>.
\<close>

section \<open>The comment scanner\<close>

text \<open>
  \<^verbatim>\<open>
  const todoRegex = /\/\/\s*(TODO|FIXME)[:|\s]*(.*)/gi;
  \<close>
  Over code units below 256, \<^verbatim>\<open>\s\<close> is tab, line feed, vertical tab, form feed,
  carriage return, space and no-break space; \<^verbatim>\<open>.\<close> is any code unit but line feed and
  carriage return; the class \<^verbatim>\<open>[:|\s]\<close> is a colon, a vertical bar or white space.
  With the flag \<^verbatim>\<open>i\<close> a letter of \<^verbatim>\<open>TODO\<close> or \<^verbatim>\<open>FIXME\<close> matches itself and
  its lower-case form.
\<close>

definition isWhiteSpace :: "char \<Rightarrow> bool" where
  "isWhiteSpace c \<longleftrightarrow> c \<in> set [CHR 0x09, CHR 0x0A, CHR 0x0B, CHR 0x0C, CHR 0x0D, CHR 0x20, CHR 0xA0]"

definition isLineTerminator :: "char \<Rightarrow> bool" where
  "isLineTerminator c \<longleftrightarrow> c = CHR 0x0A \<or> c = CHR 0x0D"

definition isSeparator :: "char \<Rightarrow> bool" where
  "isSeparator c \<longleftrightarrow> c = CHR '':'' \<or> c = CHR ''|'' \<or> isWhiteSpace c"

definition asciiUpper :: "char \<Rightarrow> char" where
  "asciiUpper c =
     (case map_of (zip ''abcdefghijklmnopqrstuvwxyz'' ''ABCDEFGHIJKLMNOPQRSTUVWXYZ'') c of
        Some u \<Rightarrow> u
      | None \<Rightarrow> c)"

definition matchesIgnoreCase :: "string \<Rightarrow> string \<Rightarrow> bool" where
  "matchesIgnoreCase word s \<longleftrightarrow> map asciiUpper (take (length word) s) = word"

definition matchMarker :: "string \<Rightarrow> (string \<times> string) option" where
  "matchMarker s =
     (if matchesIgnoreCase ''TODO'' s then Some (take 4 s, drop 4 s)
      else if matchesIgnoreCase ''FIXME'' s then Some (take 5 s, drop 5 s)
      else None)"

record regexMatch =
  index :: nat
  marker :: string
  trailing :: string
  lastIndex :: nat

fun todoMatchAt :: "string \<Rightarrow> (string \<times> string \<times> nat) option" where
  "todoMatchAt (c1 # c2 # r) =
     (if c1 = CHR ''/'' \<and> c2 = CHR ''/'' then
        (case matchMarker (dropWhile isWhiteSpace r) of
           None \<Rightarrow> None
         | Some (m, r2) \<Rightarrow>
             (let tr = takeWhile (\<lambda>c. \<not> isLineTerminator c) (dropWhile isSeparator r2)
              in Some (m, tr,
                   2 + length (takeWhile isWhiteSpace r) + length m +
                   length (takeWhile isSeparator r2) + length tr)))
      else None)"
| "todoMatchAt _ = None"

text \<open>
  \<^const>\<open>todoMatchAt\<close> is the match of the pattern at the start of a text: the marker
  (group 1), the trailing text (group 2) and the length of the whole match. Every
  quantifier is greedy, and no shorter choice can succeed where the greedy one fails: after
  fewer white-space characters the next one is white space, not a letter. One call of
  \<^verbatim>\<open>todoRegex.exec(content)\<close> finds the leftmost match at or after
  \<^verbatim>\<open>lastIndex\<close> and moves \<^verbatim>\<open>lastIndex\<close> behind it.
\<close>

function todoExec :: "string \<Rightarrow> nat \<Rightarrow> regexMatch option" where
  "todoExec content i =
     (if length content \<le> i then None
      else (case todoMatchAt (drop i content) of
              Some (m, tr, len) \<Rightarrow>
                Some \<lparr>index = i, marker = m, trailing = tr, lastIndex = i + len\<rparr>
            | None \<Rightarrow> todoExec content (Suc i)))"
  by pat_completeness auto
termination
  by (relation "measure (\<lambda>(content, i). length content - i)") auto

lemma matchMarker_length:
  "matchMarker s = Some (m, r) \<Longrightarrow> s = m @ r \<and> (length m = 4 \<or> length m = 5)"
  by (auto simp: matchMarker_def matchesIgnoreCase_def split: if_splits dest!: arg_cong[where f=length])

lemma todoMatchAt_length:
  "todoMatchAt s = Some (m, tr, len) \<Longrightarrow> 0 < len \<and> len \<le> length s"
proof (induction s rule: todoMatchAt.induct)
  case (1 c1 c2 r)
  from 1 obtain r2 where mm: "matchMarker (dropWhile isWhiteSpace r) = Some (m, r2)"
    and tr: "tr = takeWhile (\<lambda>c. \<not> isLineTerminator c) (dropWhile isSeparator r2)"
    and len: "len = 2 + length (takeWhile isWhiteSpace r) + length m +
                   length (takeWhile isSeparator r2) + length tr"
    by (auto split: if_splits option.splits simp: Let_def)
  from mm have d: "dropWhile isWhiteSpace r = m @ r2" by (simp add: matchMarker_length)
  have "length r = length (takeWhile isWhiteSpace r) + length (dropWhile isWhiteSpace r)"
    by (metis length_append takeWhile_dropWhile_id)
  moreover have "length r2 = length (takeWhile isSeparator r2) + length (dropWhile isSeparator r2)"
    by (metis length_append takeWhile_dropWhile_id)
  moreover have "length tr \<le> length (dropWhile isSeparator r2)"
    unfolding tr by (rule length_takeWhile_le)
  ultimately show ?case using d len by simp
qed simp_all

lemma todoExec_bounds:
  "todoExec content i = Some m \<Longrightarrow> i \<le> index m \<and> index m < lastIndex m \<and> lastIndex m \<le> length content"
proof (induction content i rule: todoExec.induct)
  case (1 content i)
  show ?case
  proof (cases "length content \<le> i")
    case True
    with "1.prems" show ?thesis by simp
  next
    case False
    show ?thesis
    proof (cases "todoMatchAt (drop i content)")
      case None
      with False "1.prems" have "todoExec content (Suc i) = Some m" by simp
      with "1.IH"[OF False None] show ?thesis by simp
    next
      case (Some t)
      obtain mk tr len where t: "t = (mk, tr, len)" by (cases t)
      from Some t have "0 < len \<and> len \<le> length (drop i content)"
        using todoMatchAt_length by blast
      with False Some t "1.prems" show ?thesis by auto
    qed
  qed
qed

text \<open>
  \<^verbatim>\<open>
  function checkForTodoComments(content, filePath, lines, issues) {
    const todoRegex = /\/\/\s*(TODO|FIXME)[:|\s]*(.*)/gi;
    let match;
    while ((match = todoRegex.exec(content)) !== null) {
      const lineNumber = getLineNumberFromIndex(content, match.index);
      issues.push({
        type: 'TODO/FIXME Comment',
        filePath,
        line: lineNumber,
        message: `Found ${match[1]} comment: ${match[2] || 'No description provided'}`,
        code: lines[lineNumber - 1] || ''
      });
    }
  }
  \<close>
  Every detector appends to the array \<^verbatim>\<open>issues\<close> it is given; the model takes the
  array and returns it with the new issues at the end.
\<close>

definition todoIssue :: "string \<Rightarrow> string \<Rightarrow> string list \<Rightarrow> regexMatch \<Rightarrow> issue" where
  "todoIssue content fp lines m =
     (let lineNumber = getLineNumberFromIndex content (index m)
      in \<lparr>type = ''TODO/FIXME Comment'', filePath = fp, line = lineNumber,
          message = ''Found '' @ marker m @ '' comment: '' @
            (if trailing m = [] then ''No description provided'' else trailing m),
          code = lineOrEmpty lines lineNumber\<rparr>)"

function todoLoop :: "string \<Rightarrow> string \<Rightarrow> string list \<Rightarrow> nat \<Rightarrow> issue list \<Rightarrow> issue list" where
  "todoLoop content fp lines i issues =
     (case todoExec content i of
        None \<Rightarrow> issues
      | Some m \<Rightarrow> todoLoop content fp lines (lastIndex m) (issues @ [todoIssue content fp lines m]))"
  by pat_completeness auto
termination
  apply (relation "measure (\<lambda>(content, fp, lines, i, issues). Suc (length content) - i)")
   apply simp
  apply (drule todoExec_bounds)
  apply simp
  apply linarith
  done

definition checkForTodoComments :: "string \<Rightarrow> string \<Rightarrow> string list \<Rightarrow> issue list \<Rightarrow> issue list" where
  "checkForTodoComments content fp lines issues = todoLoop content fp lines 0 issues"

section \<open>Unused variables and functions\<close>

text \<open>
  \<^verbatim>\<open>declarations\<close> is a \<^verbatim>\<open>Map\<close> from a name to
  \<^verbatim>\<open>{ type, line, used }\<close>. A \<^verbatim>\<open>Map\<close> keeps its keys in the order of their first
  insertion and \<^verbatim>\<open>set\<close> on a key it has replaces the value in place: an association
  list with that update. (The set \<^verbatim>\<open>references\<close> of the source is written and never
  read.)
\<close>

record info =
  infoType :: string
  infoLine :: nat
  used :: bool

type_synonym declarations = "(string \<times> info) list"

fun mapSet :: "string \<Rightarrow> info \<Rightarrow> declarations \<Rightarrow> declarations" where
  "mapSet k v [] = [(k, v)]"
| "mapSet k v ((k', v') # m) = (if k' = k then (k, v) # m else (k', v') # mapSet k v m)"

definition mapHas :: "string \<Rightarrow> declarations \<Rightarrow> bool" where
  "mapHas k m \<longleftrightarrow> k \<in> set (map fst m)"

definition setUsed :: "string \<Rightarrow> declarations \<Rightarrow> declarations" where
  "setUsed k m = map (\<lambda>(k', v). if k' = k then (k', v\<lparr>used := True\<rparr>) else (k', v)) m"

text \<open>
  First pass, \<^verbatim>\<open>walk.simple\<close>:
  \<^verbatim>\<open>
  VariableDeclarator(node) {
    if (node.id.type === 'Identifier') {
      const name = node.id.name;
      const line = getLineNumberFromIndex(content, node.start);
      declarations.set(name, { type: 'Variable', line, used: false });
    }
  },
  FunctionDeclaration(node) {
    if (node.id && node.id.type === 'Identifier') {
      ... declarations.set(name, { type: 'Function', line, used: false });
    }
  }
  \<close>
\<close>

fun declareVariable :: "string \<Rightarrow> node \<Rightarrow> declarations \<Rightarrow> declarations" where
  "declareVariable content (VariableDeclarator s e (Identifier is ie name) x) decls =
     mapSet name \<lparr>infoType = ''Variable'',
        infoLine = getLineNumberFromIndex content s, used = False\<rparr> decls"
| "declareVariable content _ decls = decls"

fun declareFunction :: "string \<Rightarrow> node \<Rightarrow> declarations \<Rightarrow> declarations" where
  "declareFunction content (FunctionDeclaration s e (Some (Identifier is ie name)) ps b) decls =
     mapSet name \<lparr>infoType = ''Function'',
        infoLine = getLineNumberFromIndex content s, used = False\<rparr> decls"
| "declareFunction content _ decls = decls"

definition declarationVisitors :: "string \<Rightarrow> string \<Rightarrow> (node \<Rightarrow> declarations \<Rightarrow> declarations) option" where
  "declarationVisitors content t =
     (if t = ''VariableDeclarator'' then Some (declareVariable content)
      else if t = ''FunctionDeclaration'' then Some (declareFunction content)
      else None)"

text \<open>
  Second pass, \<^verbatim>\<open>walk.ancestor\<close>:
  \<^verbatim>\<open>
  Identifier(node, ancestors) {
    const name = node.name;
    const isDeclaration = ancestors.some(ancestor => {
      return (
        (ancestor.type === 'VariableDeclarator' && ancestor.id === node) ||
        (ancestor.type === 'FunctionDeclaration' && ancestor.id === node)
      );
    });
    if (!isDeclaration && declarations.has(name)) {
      references.add(name);
      declarations.get(name).used = true;
    }
  }
  \<close>
\<close>

definition isDeclaration :: "node \<Rightarrow> node list \<Rightarrow> bool" where
  "isDeclaration node ancestors \<longleftrightarrow>
     list_ex (\<lambda>ancestor.
        (ntype ancestor = ''VariableDeclarator'' \<and> nodeId ancestor = Some node) \<or>
        (ntype ancestor = ''FunctionDeclaration'' \<and> nodeId ancestor = Some node)) ancestors"

fun markReference :: "node \<Rightarrow> node list \<Rightarrow> declarations \<Rightarrow> declarations" where
  "markReference (Identifier s e name) ancestors decls =
     (if \<not> isDeclaration (Identifier s e name) ancestors \<and> mapHas name decls
      then setUsed name decls else decls)"
| "markReference _ ancestors decls = decls"

definition referenceVisitors :: "string \<Rightarrow> (node \<Rightarrow> node list \<Rightarrow> declarations \<Rightarrow> declarations) option" where
  "referenceVisitors t = (if t = ''Identifier'' then Some markReference else None)"

text \<open>
  The report:
  \<^verbatim>\<open>
  declarations.forEach((info, name) => {
    if (name === 'exports' || name === 'module' || name === 'require') {
      return;
    }
    if (!info.used) {
      issues.push({
        type: `Unused ${info.type}`,
        filePath,
        line: info.line,
        message: `Unused ${info.type.toLowerCase()} '${name}'`,
        code: lines[info.line - 1] || ''
      });
    }
  });
  \<close>
\<close>

definition quote :: char where
  "quote = CHR 0x27"

definition toLowerCase :: "string \<Rightarrow> string" where
  "toLowerCase s =
     map (\<lambda>c. let n = (of_char c :: nat)
               in if (65 \<le> n \<and> n \<le> 90) \<or> (192 \<le> n \<and> n \<le> 222 \<and> n \<noteq> 215)
                  then char_of (n + 32) else c) s"

definition reportUnused :: "string \<Rightarrow> string list \<Rightarrow> string \<times> info \<Rightarrow> issue list \<Rightarrow> issue list" where
  "reportUnused fp lines entry issues =
     (let name = fst entry; inf = snd entry in
      if name = ''exports'' \<or> name = ''module'' \<or> name = ''require'' then issues
      else if \<not> used inf then
        issues @ [\<lparr>type = ''Unused '' @ infoType inf, filePath = fp, line = infoLine inf,
          message = ''Unused '' @ toLowerCase (infoType inf) @ '' '' @ [quote] @ name @ [quote],
          code = lineOrEmpty lines (infoLine inf)\<rparr>]
      else issues)"

definition checkForUnusedCode :: "node \<Rightarrow> string \<Rightarrow> string \<Rightarrow> string list \<Rightarrow> issue list \<Rightarrow> issue list" where
  "checkForUnusedCode ast content fp lines issues =
     (let declarations1 = simple_c (declarationVisitors content) ast None [];
          declarations2 = ancestor_c referenceVisitors ast None [] declarations1
      in fold (reportUnused fp lines) declarations2 issues)"

section \<open>Long functions\<close>

text \<open>
  \<^verbatim>\<open>findParentNode\<close> walks the whole tree and keeps the last variable declarator,
  assignment or property whose \<^verbatim>\<open>init\<close>, \<^verbatim>\<open>right\<close> or \<^verbatim>\<open>value\<close> is the target
  node.
\<close>

definition MAX_FUNCTION_LENGTH :: int where
  "MAX_FUNCTION_LENGTH = 50"

fun nodeInit :: "node \<Rightarrow> node option" where
  "nodeInit (VariableDeclarator s e i x) = x"
| "nodeInit _ = None"

fun nodeRight :: "node \<Rightarrow> node option" where
  "nodeRight (AssignmentExpression s e l r) = Some r"
| "nodeRight _ = None"

fun nodeValue :: "node \<Rightarrow> node option" where
  "nodeValue (Property s e k v c) = Some v"
| "nodeValue _ = None"

definition parentVisitors :: "node \<Rightarrow> string \<Rightarrow> (node \<Rightarrow> node list \<Rightarrow> node option \<Rightarrow> node option) option" where
  "parentVisitors targetNode t =
     (if t = ''VariableDeclarator'' then
        Some (\<lambda>node ancestors result. if nodeInit node = Some targetNode then Some node else result)
      else if t = ''AssignmentExpression'' then
        Some (\<lambda>node ancestors result. if nodeRight node = Some targetNode then Some node else result)
      else if t = ''Property'' then
        Some (\<lambda>node ancestors result. if nodeValue node = Some targetNode then Some node else result)
      else None)"

definition findParentNode :: "node \<Rightarrow> node \<Rightarrow> node option" where
  "findParentNode ast targetNode = ancestor_c (parentVisitors targetNode) ast None [] None"

text \<open>
  \<^verbatim>\<open>
  FunctionExpression(node) {
    const startLine = getLineNumberFromIndex(content, node.start);
    const endLine = getLineNumberFromIndex(content, node.end);
    const functionLength = endLine - startLine;
    if (functionLength > MAX_FUNCTION_LENGTH) {
      const parentNode = findParentNode(ast, node);
      const functionName = parentNode && parentNode.type === 'VariableDeclarator' && parentNode.id ?
        parentNode.id.name : 'anonymous';
      issues.push({
        type: 'Long Function',
        filePath,
        line: startLine,
        message: `Function '${functionName}' is too long (${functionLength} lines)`,
        code: lines[startLine - 1] || ''
      });
    }
  }
  \<close>
  The visitor of \<^verbatim>\<open>FunctionDeclaration\<close> takes the name from the node
  (\<^verbatim>\<open>node.id ? node.id.name : 'anonymous'\<close>); the one of
  \<^verbatim>\<open>ArrowFunctionExpression\<close> writes \<^verbatim>\<open>Arrow function\<close> for \<^verbatim>\<open>Function\<close>. The
  \<^verbatim>\<open>name\<close> of an \<^verbatim>\<open>id\<close> that is a pattern is \<^verbatim>\<open>undefined\<close>, which the
  template prints as that word.
\<close>

definition nameText :: "node \<Rightarrow> string" where
  "nameText idNode = (case nodeName idNode of Some name \<Rightarrow> name | None \<Rightarrow> ''undefined'')"

definition functionLength :: "string \<Rightarrow> node \<Rightarrow> int" where
  "functionLength content node =
     int (getLineNumberFromIndex content (nend node)) -
     int (getLineNumberFromIndex content (nstart node))"

definition longFunctionIssue :: "string \<Rightarrow> string \<Rightarrow> string list \<Rightarrow> node \<Rightarrow> string \<Rightarrow> string \<Rightarrow> issue" where
  "longFunctionIssue content fp lines node label functionName =
     (let startLine = getLineNumberFromIndex content (nstart node)
      in \<lparr>type = ''Long Function'', filePath = fp, line = startLine,
          message = label @ '' '' @ [quote] @ functionName @ [quote] @ '' is too long ('' @
            showInt (functionLength content node) @ '' lines)'',
          code = lineOrEmpty lines startLine\<rparr>)"

definition declaredFunctionName :: "node \<Rightarrow> string" where
  "declaredFunctionName node =
     (case nodeId node of Some idNode \<Rightarrow> nameText idNode | None \<Rightarrow> ''anonymous'')"

definition parentFunctionName :: "node \<Rightarrow> node \<Rightarrow> string" where
  "parentFunctionName ast node =
     (case findParentNode ast node of
        None \<Rightarrow> ''anonymous''
      | Some parentNode \<Rightarrow>
          (if ntype parentNode = ''VariableDeclarator'' then
             (case nodeId parentNode of
                Some idNode \<Rightarrow> nameText idNode
              | None \<Rightarrow> ''anonymous'')
           else ''anonymous''))"

definition longFunctionVisitors :: "node \<Rightarrow> string \<Rightarrow> string \<Rightarrow> string list \<Rightarrow> string \<Rightarrow> (node \<Rightarrow> issue list \<Rightarrow> issue list) option" where
  "longFunctionVisitors ast content fp lines t =
     (if t = ''FunctionDeclaration'' then
        Some (\<lambda>node issues.
          if functionLength content node > MAX_FUNCTION_LENGTH
          then issues @ [longFunctionIssue content fp lines node ''Function'' (declaredFunctionName node)]
          else issues)
      else if t = ''FunctionExpression'' then
        Some (\<lambda>node issues.
          if functionLength content node > MAX_FUNCTION_LENGTH
          then issues @ [longFunctionIssue content fp lines node ''Function'' (parentFunctionName ast node)]
          else issues)
      else if t = ''ArrowFunctionExpression'' then
        Some (\<lambda>node issues.
          if functionLength content node > MAX_FUNCTION_LENGTH
          then issues @ [longFunctionIssue content fp lines node ''Arrow function'' (parentFunctionName ast node)]
          else issues)
      else None)"

definition checkForLongFunctions :: "node \<Rightarrow> string \<Rightarrow> string \<Rightarrow> string list \<Rightarrow> issue list \<Rightarrow> issue list" where
  "checkForLongFunctions ast content fp lines issues =
     simple_c (longFunctionVisitors ast content fp lines) ast None issues"

section \<open>Deeply nested code\<close>

text \<open>
  \<^verbatim>\<open>
  function checkNesting(node, level = 0) {
    if (!node) return;
    if ((node.type === 'IfStatement' || ... || node.type === 'ForOfStatement') &&
        level >= MAX_NESTING_LEVEL) {
      const line = getLineNumberFromIndex(content, node.start);
      issues.push({
        type: 'Deeply Nested Code',
        filePath,
        line,
        message: `Code is nested too deeply (${level + 1} levels)`,
        code: lines[line - 1] || ''
      });
    }
    for (const key in node) {
      if (node[key] && typeof node[key] === 'object') {
        if (Array.isArray(node[key])) {
          node[key].forEach(child => {
            if (child && typeof child === 'object') {
              const newLevel = (node.type === 'IfStatement' || ...) ? level + 1 : level;
              checkNesting(child, newLevel);
            }
          });
        } else if (key === 'body' || key === 'consequent' || key === 'alternate') {
          const newLevel = (node.type === 'IfStatement' || ...) ? level + 1 : level;
          checkNesting(node[key], newLevel);
        }
      }
    }
  }
  checkNesting(ast);
  \<close>
  This detector does not use the library's walker: it follows every array of children and,
  of the single children, those under the keys \<^verbatim>\<open>body\<close>, \<^verbatim>\<open>consequent\<close> and
  \<^verbatim>\<open>alternate\<close>.
\<close>

definition isControlFlow :: "node \<Rightarrow> bool" where
  "isControlFlow node \<longleftrightarrow>
     ntype node = ''IfStatement'' \<or> ntype node = ''ForStatement'' \<or>
     ntype node = ''WhileStatement'' \<or> ntype node = ''DoWhileStatement'' \<or>
     ntype node = ''ForInStatement'' \<or> ntype node = ''ForOfStatement''"

definition MAX_NESTING_LEVEL :: nat where
  "MAX_NESTING_LEVEL = 3"

function checkNesting :: "string \<Rightarrow> string \<Rightarrow> string list \<Rightarrow> node \<Rightarrow> nat \<Rightarrow> issue list \<Rightarrow> issue list" where
  "checkNesting content fp lines node level issues =
     (let issues1 =
            (if isControlFlow node \<and> level \<ge> MAX_NESTING_LEVEL then
               (let ln = getLineNumberFromIndex content (nstart node) in
                issues @ [\<lparr>type = ''Deeply Nested Code'', filePath = fp, line = ln,
                   message = ''Code is nested too deeply ('' @ showNat (level + 1) @ '' levels)'',
                   code = lineOrEmpty lines ln\<rparr>])
             else issues);
          newLevel = (if isControlFlow node then level + 1 else level)
      in fold (\<lambda>(key, sl) acc.
                 (case sl of
                    Array children \<Rightarrow>
                      fold (\<lambda>child acc'. checkNesting content fp lines child newLevel acc') children acc
                  | Single child \<Rightarrow>
                      if key = ''body'' \<or> key = ''consequent'' \<or> key = ''alternate''
                      then checkNesting content fp lines child newLevel acc
                      else acc))
              (objectProps node) issues1)"
  by pat_completeness auto
termination
  apply (relation "measure (\<lambda>(c, f, l, n, lv, i). size n)")
  apply (auto dest: objectProps_smaller)
  done

definition checkForDeeplyNestedCode :: "node \<Rightarrow> string \<Rightarrow> string \<Rightarrow> string list \<Rightarrow> issue list \<Rightarrow> issue list" where
  "checkForDeeplyNestedCode ast content fp lines issues = checkNesting content fp lines ast 0 issues"

section \<open>Dead code\<close>

text \<open>
  \<^verbatim>\<open>
  BlockStatement(node) {
    if (!node.body || node.body.length <= 1) return;
    let foundReturn = false;
    let returnLine = -1;
    for (let i = 0; i < node.body.length; i++) {
      const statement = node.body[i];
      if (foundReturn) {
        const line = getLineNumberFromIndex(content, statement.start);
        console.log(`Found dead code at line ${line} (after return at line ${returnLine})`);
        issues.push({
          type: 'Dead Code',
          filePath,
          line,
          message: 'Unreachable code after return statement',
          code: lines[line - 1] || ''
        });
        break; // Only report the first instance
      }
      if (statement.type === 'ReturnStatement') {
        foundReturn = true;
        returnLine = getLineNumberFromIndex(content, statement.start);
      }
    }
  }
  \<close>
\<close>

definition deadCodeIssue :: "string \<Rightarrow> string \<Rightarrow> string list \<Rightarrow> node \<Rightarrow> issue" where
  "deadCodeIssue content fp lines statement =
     (let ln = getLineNumberFromIndex content (nstart statement)
      in \<lparr>type = ''Dead Code'', filePath = fp, line = ln,
          message = ''Unreachable code after return statement'',
          code = lineOrEmpty lines ln\<rparr>)"

fun deadCodeLoop :: "string \<Rightarrow> string \<Rightarrow> string list \<Rightarrow> node list \<Rightarrow> bool \<Rightarrow> int \<Rightarrow> issue list \<Rightarrow> issue list" where
  "deadCodeLoop content fp lines [] foundReturn returnLine issues = issues"
| "deadCodeLoop content fp lines (statement # rest) foundReturn returnLine issues =
     (if foundReturn then issues @ [deadCodeIssue content fp lines statement]
      else if ntype statement = ''ReturnStatement''
      then deadCodeLoop content fp lines rest True
             (int (getLineNumberFromIndex content (nstart statement))) issues
      else deadCodeLoop content fp lines rest foundReturn returnLine issues)"

fun blockVisitor :: "string \<Rightarrow> string \<Rightarrow> string list \<Rightarrow> node \<Rightarrow> issue list \<Rightarrow> issue list" where
  "blockVisitor content fp lines (BlockStatement s e body) issues =
     (if length body \<le> 1 then issues
      else deadCodeLoop content fp lines body False (- 1) issues)"
| "blockVisitor content fp lines _ issues = issues"

definition deadCodeVisitors :: "string \<Rightarrow> string \<Rightarrow> string list \<Rightarrow> string \<Rightarrow> (node \<Rightarrow> issue list \<Rightarrow> issue list) option" where
  "deadCodeVisitors content fp lines t =
     (if t = ''BlockStatement'' then Some (blockVisitor content fp lines) else None)"

definition checkForDeadCode :: "node \<Rightarrow> string \<Rightarrow> string \<Rightarrow> string list \<Rightarrow> issue list \<Rightarrow> issue list" where
  "checkForDeadCode ast content fp lines issues =
     simple_c (deadCodeVisitors content fp lines) ast None issues"

section \<open>One file, and the files of a directory\<close>

text \<open>
  \<^verbatim>\<open>scanFile\<close> reads the file, parses it and runs the five detectors on one array of
  issues. Reading the file and the parser are collaborators: \<open>readFile\<close> yields the text
  or an error message, \<open>parse\<close> a tree or a syntax error with an optional location
  (\<^verbatim>\<open>parseError.loc ? parseError.loc.line : 1\<close>). An exception leaves \<^verbatim>\<open>scanFile\<close>
  as an error with the message \<^verbatim>\<open>Failed to scan file ...\<close>; the loop of
  \<^verbatim>\<open>scanDirectory\<close> over the files appends each file's issues to \<^verbatim>\<open>allIssues\<close>.
\<close>

datatype parseResult = ParseError "nat option" string | Parsed node

definition syntaxErrorIssue :: "string \<Rightarrow> string list \<Rightarrow> nat option \<Rightarrow> string \<Rightarrow> issue" where
  "syntaxErrorIssue fp lines loc msg =
     (let ln = (case loc of Some l \<Rightarrow> l | None \<Rightarrow> 1)
      in \<lparr>type = ''Syntax Error'', filePath = fp, line = ln,
          message = ''Syntax error: '' @ msg,
          code = lineOrEmpty lines ln\<rparr>)"

definition scanFile :: "(string \<Rightarrow> string + string) \<Rightarrow> (string \<Rightarrow> parseResult) \<Rightarrow> string \<Rightarrow> string + issue list" where
  "scanFile readFile parse fp =
     (case readFile fp of
        Inl err \<Rightarrow> Inl (''Failed to scan file '' @ fp @ '': '' @ err)
      | Inr content \<Rightarrow>
          (let lines = split_newline content; issues = [] in
           case parse content of
             ParseError loc msg \<Rightarrow> Inr (issues @ [syntaxErrorIssue fp lines loc msg])
           | Parsed ast \<Rightarrow>
               (let issues1 = checkForTodoComments content fp lines issues;
                    issues2 = checkForUnusedCode ast content fp lines issues1;
                    issues3 = checkForLongFunctions ast content fp lines issues2;
                    issues4 = checkForDeeplyNestedCode ast content fp lines issues3;
                    issues5 = checkForDeadCode ast content fp lines issues4
                in Inr issues5)))"


declare checkNesting.simps [simp del] simple_c.simps [simp del] ancestor_c.simps [simp del]
  todoExec.simps [simp del] todoLoop.simps [simp del]

section \<open>The walks as lists of visitor calls\<close>

text \<open>
  The order in which a walk looks up and calls the visitors does not depend on the
  visitors: \<^verbatim>\<open>walk.simple\<close> is a fold of the visitors over the list of pairs of a type
  name and a node, children before their parent; \<^verbatim>\<open>walk.ancestor\<close> likewise, each
  call with its stack of ancestors.
\<close>

function simpleCalls :: "node \<Rightarrow> override option \<Rightarrow> (string \<times> node) list" where
  "simpleCalls node ov =
     concat (map (\<lambda>(child, ov'). simpleCalls child ov') (baseVisitor node ov)) @
     [(walkType node ov, node)]"
  by pat_completeness auto
termination
  apply (relation "measure (\<lambda>(n, ov). walkMeasure n ov)")
  apply (auto dest: baseVisitor_decreases)
  done

declare simpleCalls.simps [simp del]

fun applyVisitor :: "(string \<Rightarrow> (node \<Rightarrow> 's \<Rightarrow> 's) option) \<Rightarrow> string \<times> node \<Rightarrow> 's \<Rightarrow> 's" where
  "applyVisitor visitors (t, node) st =
     (case visitors t of Some visit \<Rightarrow> visit node st | None \<Rightarrow> st)"

lemma fold_concat_map: "fold f (concat (map g xs)) s = fold (\<lambda>x. fold f (g x)) xs s"
  by (induction xs arbitrary: s) auto

lemma simple_c_fold:
  "simple_c visitors node ov st = fold (applyVisitor visitors) (simpleCalls node ov) st"
proof (induction node ov arbitrary: st rule: simpleCalls.induct)
  case (1 node ov)
  have "fold (\<lambda>(child, ov') s. simple_c visitors child ov' s) (baseVisitor node ov) st =
        fold (\<lambda>x. fold (applyVisitor visitors) ((\<lambda>(child, ov'). simpleCalls child ov') x)) (baseVisitor node ov) st"
    by (rule fold_cong) (auto simp: 1 simp del: simple_c.simps)
  then show ?case
    by (subst simple_c.simps, subst simpleCalls.simps) (simp add: fold_concat_map Let_def del: simple_c.simps split: option.split)
qed


function ancestorCalls :: "node \<Rightarrow> override option \<Rightarrow> node list \<Rightarrow> (string \<times> node \<times> node list) list" where
  "ancestorCalls node ov ancestors =
     (let ancestors1 = (if ancestors = [] \<or> node \<noteq> last ancestors
                        then ancestors @ [node] else ancestors)
      in concat (map (\<lambda>(child, ov'). ancestorCalls child ov' ancestors1) (baseVisitor node ov)) @
         [(walkType node ov, node, ancestors1)])"
  by pat_completeness auto
termination
  apply (relation "measure (\<lambda>(n, ov, an). walkMeasure n ov)")
  apply (auto dest: baseVisitor_decreases)
  done

declare ancestorCalls.simps [simp del]

fun applyAncestorVisitor :: "(string \<Rightarrow> (node \<Rightarrow> node list \<Rightarrow> 's \<Rightarrow> 's) option) \<Rightarrow> string \<times> node \<times> node list \<Rightarrow> 's \<Rightarrow> 's" where
  "applyAncestorVisitor visitors (t, node, ancestors) st =
     (case visitors t of Some visit \<Rightarrow> visit node ancestors st | None \<Rightarrow> st)"

lemma ancestor_c_fold:
  "ancestor_c visitors node ov ancestors st =
   fold (applyAncestorVisitor visitors) (ancestorCalls node ov ancestors) st"
proof (induction node ov ancestors arbitrary: st rule: ancestorCalls.induct)
  case (1 node ov ancestors)
  define ancestors1 where "ancestors1 = (if ancestors = [] \<or> node \<noteq> last ancestors
                        then ancestors @ [node] else ancestors)"
  define st1 where "st1 = fold (\<lambda>(child, ov') s. ancestor_c visitors child ov' ancestors1 s) (baseVisitor node ov) st"
  have st1: "st1 =
        fold (\<lambda>x. fold (applyAncestorVisitor visitors) ((\<lambda>(child, ov'). ancestorCalls child ov' ancestors1) x)) (baseVisitor node ov) st"
    unfolding st1_def
    by (rule fold_cong) (auto simp: 1 ancestors1_def simp del: ancestor_c.simps)
  have lhs: "ancestor_c visitors node ov ancestors st =
     (case visitors (walkType node ov) of Some visit \<Rightarrow> visit node ancestors1 st1 | None \<Rightarrow> st1)"
    unfolding st1_def ancestors1_def
    by (subst ancestor_c.simps) (simp only: Let_def)
  have rhs: "ancestorCalls node ov ancestors =
     concat (map (\<lambda>(child, ov'). ancestorCalls child ov' ancestors1) (baseVisitor node ov)) @
         [(walkType node ov, node, ancestors1)]"
    unfolding ancestors1_def
    by (subst ancestorCalls.simps) (simp only: Let_def)
  show ?case
    unfolding lhs rhs by (simp add: fold_concat_map st1 split: option.split)
qed

text \<open>
  Evaluating a walk on a given tree: the function arguments of \<^const>\<open>fold\<close> and
  \<^const>\<open>map\<close> are left alone until they meet an element of the list.
\<close>

lemma fold_weak_cong: "xs = ys \<Longrightarrow> s = t \<Longrightarrow> fold f xs s = fold f ys t"
  by simp

lemma map_weak_cong: "xs = ys \<Longrightarrow> map f xs = map f ys"
  by simp

section \<open>Deeply nested code: what the walk reaches\<close>

text \<open>
  The children \<^verbatim>\<open>checkNesting\<close> descends into, in order: the elements of every
  array-valued property, and the single nodes under \<^verbatim>\<open>body\<close>, \<^verbatim>\<open>consequent\<close> and
  \<^verbatim>\<open>alternate\<close>. \<open>nestVisits\<close> lists the calls of \<^verbatim>\<open>checkNesting\<close>, each node
  with the level it is called at.
\<close>

definition followedChildren :: "node \<Rightarrow> node list" where
  "followedChildren node =
     concat (map (\<lambda>(key, sl).
        (case sl of
           Array children \<Rightarrow> children
         | Single child \<Rightarrow>
             if key = ''body'' \<or> key = ''consequent'' \<or> key = ''alternate''
             then [child] else [])) (objectProps node))"

lemma followedChildren_slot:
  "c \<in> set (followedChildren n) \<Longrightarrow>
   \<exists>k sl. (k, sl) \<in> set (objectProps n) \<and> c \<in> set (slotNodes sl)"
  unfolding followedChildren_def
  apply clarsimp
  subgoal for k sl by (cases sl) (fastforce split: if_splits)+
  done

lemma followedChildren_smaller: "c \<in> set (followedChildren n) \<Longrightarrow> size c < size n"
  using followedChildren_slot objectProps_smaller by blast

function nestVisits :: "node \<Rightarrow> nat \<Rightarrow> (node \<times> nat) list" where
  "nestVisits node level =
     (node, level) #
     concat (map (\<lambda>child. nestVisits child (if isControlFlow node then level + 1 else level))
       (followedChildren node))"
  by pat_completeness auto
termination
  by (relation "measure (\<lambda>(n, l). size n)") (auto dest: followedChildren_smaller)

declare nestVisits.simps [simp del]

definition nestingIssue :: "string \<Rightarrow> string \<Rightarrow> string list \<Rightarrow> node \<times> nat \<Rightarrow> issue" where
  "nestingIssue content fp lines visit =
     (let ln = getLineNumberFromIndex content (nstart (fst visit))
      in \<lparr>type = ''Deeply Nested Code'', filePath = fp, line = ln,
          message = ''Code is nested too deeply ('' @ showNat (snd visit + 1) @ '' levels)'',
          code = lineOrEmpty lines ln\<rparr>)"

definition tooDeep :: "node \<times> nat \<Rightarrow> bool" where
  "tooDeep visit \<longleftrightarrow> isControlFlow (fst visit) \<and> 3 \<le> snd visit"

lemma concat_map_concat:
  "concat (map (\<lambda>x. concat (map g (h x))) xs) = concat (map g (concat (map h xs)))"
  by (induction xs) auto

lemma fold_append_each:
  assumes "\<And>x acc. x \<in> set xs \<Longrightarrow> f x acc = acc @ g x"
  shows "fold f xs acc = acc @ concat (map g xs)"
  using assms by (induction xs arbitrary: acc) auto

lemma checkNesting_visits:
  "checkNesting content fp lines node level issues =
   issues @ map (nestingIssue content fp lines) (filter tooDeep (nestVisits node level))"
proof (induction node level arbitrary: issues rule: nestVisits.induct)
  case (1 node level)
  define newLevel where "newLevel = (if isControlFlow node then level + 1 else level)"
  define own where "own = (if isControlFlow node \<and> level \<ge> MAX_NESTING_LEVEL then
               [nestingIssue content fp lines (node, level)] else [])"
  define g where "g = (\<lambda>child. map (nestingIssue content fp lines) (filter tooDeep (nestVisits child newLevel)))"
  have IH: "\<And>child acc. child \<in> set (followedChildren node) \<Longrightarrow>
      checkNesting content fp lines child newLevel acc = acc @ g child"
    unfolding g_def newLevel_def by (rule 1)
  have slotstep: "\<And>key sl acc. (key, sl) \<in> set (objectProps node) \<Longrightarrow>
     (case sl of
        Array children \<Rightarrow>
          fold (\<lambda>child acc'. checkNesting content fp lines child newLevel acc') children acc
      | Single child \<Rightarrow>
          if key = ''body'' \<or> key = ''consequent'' \<or> key = ''alternate''
          then checkNesting content fp lines child newLevel acc
          else acc) =
     acc @ concat (map g (case sl of
           Array children \<Rightarrow> children
         | Single child \<Rightarrow>
             if key = ''body'' \<or> key = ''consequent'' \<or> key = ''alternate''
             then [child] else []))"
  proof -
    fix key sl acc assume m: "(key, sl) \<in> set (objectProps node)"
    show "?thesis key sl acc"
    proof (cases sl)
      case (Single child)
      with m IH show ?thesis
        by (force simp: followedChildren_def simp del: checkNesting.simps)
    next
      case (Array children)
      have "fold (\<lambda>child acc'. checkNesting content fp lines child newLevel acc') children acc
            = acc @ concat (map g children)"
        apply (rule fold_append_each)
        apply (rule IH)
        using m Array apply (force simp: followedChildren_def)
        done
      with Array show ?thesis by simp
    qed
  qed
  have folded: "fold (\<lambda>(key, sl) acc.
                 (case sl of
                    Array children \<Rightarrow>
                      fold (\<lambda>child acc'. checkNesting content fp lines child newLevel acc') children acc
                  | Single child \<Rightarrow>
                      if key = ''body'' \<or> key = ''consequent'' \<or> key = ''alternate''
                      then checkNesting content fp lines child newLevel acc
                      else acc))
              (objectProps node) (issues @ own)
        = (issues @ own) @ concat (map (\<lambda>(key, sl). concat (map g (case sl of
           Array children \<Rightarrow> children
         | Single child \<Rightarrow>
             if key = ''body'' \<or> key = ''consequent'' \<or> key = ''alternate''
             then [child] else []))) (objectProps node))"
    apply (rule fold_append_each)
    using slotstep apply (auto simp del: checkNesting.simps)
    done
  have lhs: "checkNesting content fp lines node level issues =
     fold (\<lambda>(key, sl) acc.
                 (case sl of
                    Array children \<Rightarrow>
                      fold (\<lambda>child acc'. checkNesting content fp lines child newLevel acc') children acc
                  | Single child \<Rightarrow>
                      if key = ''body'' \<or> key = ''consequent'' \<or> key = ''alternate''
                      then checkNesting content fp lines child newLevel acc
                      else acc))
              (objectProps node) (issues @ own)"
    unfolding newLevel_def own_def
    by (subst checkNesting.simps) (simp add: Let_def nestingIssue_def del: checkNesting.simps)
  have rhs: "map (nestingIssue content fp lines) (filter tooDeep (nestVisits node level)) =
     own @ concat (map g (followedChildren node))"
    unfolding own_def g_def newLevel_def
    by (subst nestVisits.simps)
       (simp add: tooDeep_def MAX_NESTING_LEVEL_def map_concat filter_concat comp_def)
  have cc: "concat (map (\<lambda>(key, sl). concat (map g (case sl of
           Array children \<Rightarrow> children
         | Single child \<Rightarrow>
             if key = ''body'' \<or> key = ''consequent'' \<or> key = ''alternate''
             then [child] else []))) (objectProps node)) = concat (map g (followedChildren node))"
    unfolding followedChildren_def concat_map_concat[symmetric]
    by (simp add: case_prod_unfold)
  show ?case unfolding lhs rhs folded cc by simp
qed

text \<open>
  The nesting depth in the words of the specification, over the whole tree: a control-flow
  construct has depth one more than the number of control-flow construct bodies
  (\<^verbatim>\<open>body\<close>, \<^verbatim>\<open>consequent\<close>, \<^verbatim>\<open>alternate\<close>) that enclose it, whatever else lies
  in between. \<open>nestingDepths\<close> lists every control-flow construct of the tree with
  its depth.
\<close>

function nestingDepths :: "node \<Rightarrow> nat \<Rightarrow> (node \<times> nat) list" where
  "nestingDepths node enclosing =
     (if isControlFlow node then [(node, enclosing + 1)] else []) @
     concat (map (\<lambda>(key, sl).
        concat (map (\<lambda>child. nestingDepths child
            (if isControlFlow node \<and>
                (key = ''body'' \<or> key = ''consequent'' \<or> key = ''alternate'')
             then enclosing + 1 else enclosing)) (slotNodes sl))) (objectProps node))"
  by pat_completeness auto
termination
  by (relation "measure (\<lambda>(n, l). size n)") (auto dest: objectProps_smaller)

declare nestingDepths.simps [simp del]

lemma followedChildren_cases:
  "c \<in> set (followedChildren n) \<Longrightarrow>
   \<exists>k sl. (k, sl) \<in> set (objectProps n) \<and> c \<in> set (slotNodes sl) \<and>
     ((\<exists>cs. sl = Array cs) \<or> k = ''body'' \<or> k = ''consequent'' \<or> k = ''alternate'')"
  unfolding followedChildren_def
  apply clarsimp
  subgoal for k sl by (cases sl) (fastforce split: if_splits)+
  done

lemma optProp_no_array: "(k, Array cs) \<notin> set (optProp key a)"
  by (cases a) auto

lemma controlFlow_no_array:
  "isControlFlow n \<Longrightarrow> (k, Array cs) \<notin> set (objectProps n)"
  by (cases n) (auto simp: isControlFlow_def optProp_no_array)

lemma nestingDepths_child:
  assumes "(k, sl) \<in> set (objectProps n)" and "c \<in> set (slotNodes sl)"
    and "x \<in> set (nestingDepths c (if isControlFlow n \<and>
                (k = ''body'' \<or> k = ''consequent'' \<or> k = ''alternate'')
             then e + 1 else e))"
  shows "x \<in> set (nestingDepths n e)"
proof -
  define F where "F = (\<lambda>(key, sl).
        concat (map (\<lambda>child. nestingDepths child
            (if isControlFlow n \<and>
                (key = ''body'' \<or> key = ''consequent'' \<or> key = ''alternate'')
             then e + 1 else e)) (slotNodes sl)))"
  have "x \<in> set (F (k, sl))"
    unfolding F_def using assms(2,3) by (simp only: prod.case set_concat set_map) blast
  then have "x \<in> set (concat (map F (objectProps n)))"
    using assms(1) by (simp only: set_concat set_map) blast
  moreover have "nestingDepths n e =
     (if isControlFlow n then [(n, e + 1)] else []) @ concat (map F (objectProps n))"
    unfolding F_def by (rule nestingDepths.simps)
  ultimately show ?thesis by simp
qed

lemma nestVisits_depth:
  "(n, l) \<in> set (nestVisits node level) \<Longrightarrow> isControlFlow n \<Longrightarrow>
   (n, l + 1) \<in> set (nestingDepths node level)"
proof (induction node level rule: nestVisits.induct)
  case (1 node level)
  from "1.prems"(1) consider "(n, l) = (node, level)"
    | c where "c \<in> set (followedChildren node)"
      "(n, l) \<in> set (nestVisits c (if isControlFlow node then level + 1 else level))"
    by (subst (asm) nestVisits.simps) auto
  then show ?case
  proof cases
    case 1
    with "1.prems"(2) show ?thesis by (subst nestingDepths.simps) simp
  next
    case 2
    from 2(1) obtain k sl where ks: "(k, sl) \<in> set (objectProps node)" "c \<in> set (slotNodes sl)"
      "(\<exists>cs. sl = Array cs) \<or> k = ''body'' \<or> k = ''consequent'' \<or> k = ''alternate''"
      using followedChildren_cases by blast
    have lv: "(if isControlFlow node then level + 1 else level) =
          (if isControlFlow node \<and> (k = ''body'' \<or> k = ''consequent'' \<or> k = ''alternate'')
           then level + 1 else level)"
      using ks(1,3) controlFlow_no_array[of node k] by auto
    have "(n, l + 1) \<in> set (nestingDepths c (if isControlFlow node then level + 1 else level))"
      using "1.IH"[OF 2(1) 2(2) "1.prems"(2)] .
    then show ?thesis
      unfolding lv using nestingDepths_child[OF ks(1,2)] by blast
  qed
qed

text \<open>
  C1, as amended. The nesting walk starts at the root with level 0 and descends only into
  array-valued properties and into \<^verbatim>\<open>body\<close>, \<^verbatim>\<open>consequent\<close> and \<^verbatim>\<open>alternate\<close>,
  one level deeper below each control-flow construct. For every control-flow construct
  (conditional or one of the loop forms) that this walk reaches at level 3 or more, the
  engine appends exactly one issue of type \<^verbatim>\<open>Deeply Nested Code\<close>, in the order of the
  walk, anchored at the construct's start line, with level + 1 in the message; and it
  appends nothing else. Every construct reported has nesting depth level + 1, at least 4,
  in the tree, so a construct at depth 3 or less is never reported. (The walk does not
  enter other properties, such as the initializer of a declarator or the expression of an
  expression statement.)
\<close>

theorem deep_nesting_issues:
  "checkForDeeplyNestedCode ast content fp lines issues =
     issues @ map (nestingIssue content fp lines) (filter tooDeep (nestVisits ast 0)) \<and>
   (\<forall>v \<in> set (filter tooDeep (nestVisits ast 0)).
      isControlFlow (fst v) \<and> 4 \<le> snd v + 1 \<and> (fst v, snd v + 1) \<in> set (nestingDepths ast 0))"
  using nestVisits_depth[of _ _ ast 0]
  by (auto simp: checkForDeeplyNestedCode_def checkNesting_visits tooDeep_def)

text \<open>
  The nesting of the repository's sample file, four conditionals deep in a function
  declaration: one issue, at the fourth \<^verbatim>\<open>if\<close> on line 5.
\<close>

definition nestedText :: string where
  "nestedText = ''function p(x) {'' @ [newline] @ ''  if (a) {'' @ [newline] @ ''    if (b) {'' @ [newline] @ ''      if (c) {'' @ [newline] @ ''        if (d) {'' @ [newline] @ ''          g();'' @ [newline] @ ''        }'' @ [newline] @ ''      }'' @ [newline] @ ''    }'' @ [newline] @ ''  }'' @ [newline] @ ''}''"

definition fourthIf :: node where
  "fourthIf = IfStatement 63 96 (Identifier 67 68 ''d'') (BlockStatement 70 96 [ExpressionStatement 82 86 (CallExpression 82 85 (Identifier 82 83 ''g'') [])]) None"

definition nestedTree :: node where
  "nestedTree = Program 0 116 [FunctionDeclaration 0 116 (Some (Identifier 9 10 ''p'')) [Identifier 11 12 ''x''] (BlockStatement 14 116 [IfStatement 18 114 (Identifier 22 23 ''a'') (BlockStatement 25 114 [IfStatement 31 110 (Identifier 35 36 ''b'') (BlockStatement 38 110 [IfStatement 46 104 (Identifier 50 51 ''c'') (BlockStatement 53 104 [fourthIf]) None]) None]) None])]"

lemma nestedTree_visits: "filter tooDeep (nestVisits nestedTree 0) = [(fourthIf, 3)]"
  by (simp add: nestedTree_def fourthIf_def nestVisits.simps followedChildren_def tooDeep_def
      isControlFlow_def cong: map_weak_cong)

theorem deep_nesting_issues_witness:
  "checkForDeeplyNestedCode nestedTree nestedText ''p.js'' (split_newline nestedText) [] =
     [\<lparr>type = ''Deeply Nested Code'', filePath = ''p.js'', line = 5,
       message = ''Code is nested too deeply (4 levels)'', code = ''        if (d) {''\<rparr>] \<and>
   (fourthIf, 4) \<in> set (nestingDepths nestedTree 0)"
  using deep_nesting_issues[of nestedTree nestedText "''p.js''" "split_newline nestedText" "[]"]
  by (simp add: nestedTree_visits nestingIssue_def fourthIf_def nestedText_def newline_def
      getLineNumberFromIndex_def lineOrEmpty_def showNat.simps digitChar_def)

text \<open>
  C1 as stated fails: the same four conditionals in the body of an arrow function that
  initializes a constant. The fourth \<^verbatim>\<open>if\<close> has three enclosing control-flow bodies
  (depth 4), but it lies below the \<^verbatim>\<open>init\<close> of the declarator, where the walk does
  not go, and no issue is emitted.
\<close>

definition arrowText :: string where
  "arrowText = ''const f = () => {'' @ [newline] @ ''  if (a) {'' @ [newline] @ ''    if (b) {'' @ [newline] @ ''      if (c) {'' @ [newline] @ ''        if (d) {'' @ [newline] @ ''          g();'' @ [newline] @ ''        }'' @ [newline] @ ''      }'' @ [newline] @ ''    }'' @ [newline] @ ''  }'' @ [newline] @ ''};''"

definition arrowFourthIf :: node where
  "arrowFourthIf = IfStatement 65 98 (Identifier 69 70 ''d'') (BlockStatement 72 98 [ExpressionStatement 84 88 (CallExpression 84 87 (Identifier 84 85 ''g'') [])]) None"

definition arrowTree :: node where
  "arrowTree = Program 0 119 [VariableDeclaration 0 119 [VariableDeclarator 6 118 (Identifier 6 7 ''f'') (Some (ArrowFunctionExpression 10 118 [] (BlockStatement 16 118 [IfStatement 20 116 (Identifier 24 25 ''a'') (BlockStatement 27 116 [IfStatement 33 112 (Identifier 37 38 ''b'') (BlockStatement 40 112 [IfStatement 48 106 (Identifier 52 53 ''c'') (BlockStatement 55 106 [arrowFourthIf]) None]) None]) None])))]]"

theorem deep_nesting_counterexample:
  "isControlFlow arrowFourthIf \<and>
   (arrowFourthIf, 4) \<in> set (nestingDepths arrowTree 0) \<and>
   checkForDeeplyNestedCode arrowTree arrowText ''f.js'' (split_newline arrowText) [] = []"
proof -
  have "isControlFlow arrowFourthIf"
    by (simp add: arrowFourthIf_def isControlFlow_def)
  moreover have "(arrowFourthIf, 4) \<in> set (nestingDepths arrowTree 0)"
    by (simp add: arrowTree_def arrowFourthIf_def nestingDepths.simps isControlFlow_def
        cong: map_weak_cong)
  moreover have "checkForDeeplyNestedCode arrowTree arrowText ''f.js'' (split_newline arrowText) [] = []"
    by (simp add: checkForDeeplyNestedCode_def arrowTree_def checkNesting.simps isControlFlow_def
        cong: fold_weak_cong)
  ultimately show ?thesis by simp
qed

section \<open>Dead code: one block at a time\<close>

text \<open>
  The first statement that follows the first \<^verbatim>\<open>return\<close> of a statement list, if there
  is one; the issues of one block; and the block statements in the order in which
  \<^verbatim>\<open>walk.simple\<close> calls the visitor on them.
\<close>

definition firstUnreachable :: "node list \<Rightarrow> node option" where
  "firstUnreachable body =
     (case dropWhile (\<lambda>s. ntype s \<noteq> ''ReturnStatement'') body of
        ret # next # rest \<Rightarrow> Some next
      | _ \<Rightarrow> None)"

fun blockBody :: "node \<Rightarrow> node list" where
  "blockBody (BlockStatement s e body) = body"
| "blockBody _ = []"

definition unreachableIssues :: "string \<Rightarrow> string \<Rightarrow> string list \<Rightarrow> node \<Rightarrow> issue list" where
  "unreachableIssues content fp lines block =
     (case firstUnreachable (blockBody block) of
        Some statement \<Rightarrow> [deadCodeIssue content fp lines statement]
      | None \<Rightarrow> [])"

definition visitedBlocks :: "node \<Rightarrow> node list" where
  "visitedBlocks ast =
     map snd (filter (\<lambda>call. fst call = ''BlockStatement'') (simpleCalls ast None))"

lemma deadCodeLoop_after_return:
  "deadCodeLoop content fp lines stmts True r issues =
     (case stmts of [] \<Rightarrow> issues | s # rest \<Rightarrow> issues @ [deadCodeIssue content fp lines s])"
  by (cases stmts) simp_all

lemma deadCodeLoop_first:
  "deadCodeLoop content fp lines body False r issues =
     issues @ (case firstUnreachable body of
                 Some statement \<Rightarrow> [deadCodeIssue content fp lines statement]
               | None \<Rightarrow> [])"
proof (induction body arbitrary: r)
  case Nil
  show ?case by (simp add: firstUnreachable_def)
next
  case (Cons s rest)
  show ?case
  proof (cases "ntype s = ''ReturnStatement''")
    case True
    then show ?thesis
      by (cases rest) (simp_all add: firstUnreachable_def)
  next
    case False
    with Cons show ?thesis by (simp add: firstUnreachable_def)
  qed
qed

lemma firstUnreachable_short: "length body \<le> 1 \<Longrightarrow> firstUnreachable body = None"
  by (cases body) (auto simp: firstUnreachable_def)

lemma blockVisitor_issues:
  "blockVisitor content fp lines node issues = issues @ unreachableIssues content fp lines node"
  by (cases node) (simp_all add: unreachableIssues_def deadCodeLoop_first firstUnreachable_short)

lemma checkForDeadCode_blocks:
  "checkForDeadCode ast content fp lines issues =
     issues @ concat (map (unreachableIssues content fp lines) (visitedBlocks ast))"
proof -
  have "fold (applyVisitor (deadCodeVisitors content fp lines)) calls acc =
        acc @ concat (map (unreachableIssues content fp lines)
                (map snd (filter (\<lambda>call. fst call = ''BlockStatement'') calls)))"
    for calls acc
    by (induction calls arbitrary: acc)
       (auto simp: deadCodeVisitors_def blockVisitor_issues)
  then show ?thesis
    by (simp add: checkForDeadCode_def simple_c_fold visitedBlocks_def)
qed

lemma firstUnreachable_index:
  "firstUnreachable body = Some statement \<longleftrightarrow>
     (\<exists>i. Suc i < length body \<and> ntype (body ! i) = ''ReturnStatement'' \<and>
          (\<forall>j<i. ntype (body ! j) \<noteq> ''ReturnStatement'') \<and> statement = body ! Suc i)"
proof (induction body)
  case Nil
  show ?case by (simp add: firstUnreachable_def)
next
  case (Cons s rest)
  show ?case
  proof (cases "ntype s = ''ReturnStatement''")
    case True
    have "firstUnreachable (s # rest) = (case rest of [] \<Rightarrow> None | n # _ \<Rightarrow> Some n)"
      using True by (simp add: firstUnreachable_def split: list.splits)
    moreover have "(\<exists>i. Suc i < length (s # rest) \<and> ntype ((s # rest) ! i) = ''ReturnStatement'' \<and>
          (\<forall>j<i. ntype ((s # rest) ! j) \<noteq> ''ReturnStatement'') \<and> statement = (s # rest) ! Suc i)
       \<longleftrightarrow> (rest \<noteq> [] \<and> statement = rest ! 0)"
    proof
      assume "\<exists>i. Suc i < length (s # rest) \<and> ntype ((s # rest) ! i) = ''ReturnStatement'' \<and>
          (\<forall>j<i. ntype ((s # rest) ! j) \<noteq> ''ReturnStatement'') \<and> statement = (s # rest) ! Suc i"
      then obtain i where i: "Suc i < length (s # rest)"
          "\<forall>j<i. ntype ((s # rest) ! j) \<noteq> ''ReturnStatement''" "statement = (s # rest) ! Suc i"
        by blast
      have "i = 0"
      proof (rule ccontr)
        assume "i \<noteq> 0"
        then have "0 < i" by simp
        with i(2) have "ntype ((s # rest) ! 0) \<noteq> ''ReturnStatement''" by blast
        with True show False by simp
      qed
      with i show "rest \<noteq> [] \<and> statement = rest ! 0" by auto
    next
      assume "rest \<noteq> [] \<and> statement = rest ! 0"
      then show "\<exists>i. Suc i < length (s # rest) \<and> ntype ((s # rest) ! i) = ''ReturnStatement'' \<and>
          (\<forall>j<i. ntype ((s # rest) ! j) \<noteq> ''ReturnStatement'') \<and> statement = (s # rest) ! Suc i"
        using True by (intro exI[of _ 0]) auto
    qed
    ultimately show ?thesis
      by (cases rest) auto
  next
    case False
    have fu: "firstUnreachable (s # rest) = firstUnreachable rest"
      using False by (simp add: firstUnreachable_def)
    have "(\<exists>i. Suc i < length (s # rest) \<and> ntype ((s # rest) ! i) = ''ReturnStatement'' \<and>
          (\<forall>j<i. ntype ((s # rest) ! j) \<noteq> ''ReturnStatement'') \<and> statement = (s # rest) ! Suc i)
       \<longleftrightarrow> (\<exists>i. Suc i < length rest \<and> ntype (rest ! i) = ''ReturnStatement'' \<and>
          (\<forall>j<i. ntype (rest ! j) \<noteq> ''ReturnStatement'') \<and> statement = rest ! Suc i)"
      (is "?L \<longleftrightarrow> ?R")
    proof
      assume ?L
      then obtain i where i: "Suc i < length (s # rest)" "ntype ((s # rest) ! i) = ''ReturnStatement''"
          "\<forall>j<i. ntype ((s # rest) ! j) \<noteq> ''ReturnStatement''" "statement = (s # rest) ! Suc i"
        by blast
      from i(2) False obtain k where k: "i = Suc k" by (cases i) auto
      have "\<forall>j<k. ntype (rest ! j) \<noteq> ''ReturnStatement''"
      proof (intro allI impI)
        fix j assume "j < k"
        then have "Suc j < i" using k by simp
        with i(3) have "ntype ((s # rest) ! Suc j) \<noteq> ''ReturnStatement''" by blast
        then show "ntype (rest ! j) \<noteq> ''ReturnStatement''" by simp
      qed
      with i k show ?R by (intro exI[of _ k]) auto
    next
      assume ?R
      then obtain k where k: "Suc k < length rest" "ntype (rest ! k) = ''ReturnStatement''"
          "\<forall>j<k. ntype (rest ! j) \<noteq> ''ReturnStatement''" "statement = rest ! Suc k"
        by blast
      have "\<forall>j<Suc k. ntype ((s # rest) ! j) \<noteq> ''ReturnStatement''"
      proof (intro allI impI)
        fix j assume "j < Suc k"
        then show "ntype ((s # rest) ! j) \<noteq> ''ReturnStatement''"
          using False k(3) by (cases j) auto
      qed
      with k show ?L by (intro exI[of _ "Suc k"]) auto
    qed
    with fu Cons show ?thesis by simp
  qed
qed

lemma simpleCalls_type:
  "(t, n) \<in> set (simpleCalls node ov) \<Longrightarrow> t = ntype n \<or> t \<in> range overrideName"
proof (induction node ov rule: simpleCalls.induct)
  case (1 node ov)
  from "1.prems" consider "(t, n) = (walkType node ov, node)"
    | child ov' where "(child, ov') \<in> set (baseVisitor node ov)" "(t, n) \<in> set (simpleCalls child ov')"
    by (subst (asm) simpleCalls.simps) auto
  then show ?case
  proof cases
    case 1
    then show ?thesis by (cases ov) auto
  next
    case 2
    with "1.IH" show ?thesis by blast
  qed
qed

lemma overrideName_not_block: "overrideName ov \<noteq> ''BlockStatement''"
  by (cases ov) simp_all

lemma visitedBlocks_type:
  assumes "b \<in> set (visitedBlocks ast)"
  shows "ntype b = ''BlockStatement''"
proof -
  from assms have "(''BlockStatement'', b) \<in> set (simpleCalls ast None)"
    by (auto simp: visitedBlocks_def)
  then have "''BlockStatement'' = ntype b \<or> ''BlockStatement'' \<in> range overrideName"
    by (rule simpleCalls_type)
  moreover have "''BlockStatement'' \<notin> range overrideName"
    using overrideName_not_block by (metis rangeE)
  ultimately show ?thesis by simp
qed

text \<open>
  C2, as amended. For every block statement that the shared traversal visits: if a
  \<^verbatim>\<open>return\<close> statement stands at the top level of the block's statement list and at
  least one statement follows the first such \<^verbatim>\<open>return\<close>, the engine appends exactly one
  issue of type \<^verbatim>\<open>Dead Code\<close> for the block, anchored at the start line of the statement
  right after that \<^verbatim>\<open>return\<close>; later statements of the block are not reported. A block
  without a \<^verbatim>\<open>return\<close> at its top level, or whose first \<^verbatim>\<open>return\<close> is its last
  statement, yields no issue. The issues come in the order of the visits and the detector
  appends nothing else.
\<close>

theorem unreachable_after_return:
  "checkForDeadCode ast content fp lines issues =
     issues @ concat (map (unreachableIssues content fp lines) (visitedBlocks ast)) \<and>
   (\<forall>block \<in> set (visitedBlocks ast). ntype block = ''BlockStatement'') \<and>
   unreachableIssues content fp lines (BlockStatement s e body) =
     (case firstUnreachable body of
        Some statement \<Rightarrow>
          [\<lparr>type = ''Dead Code'', filePath = fp,
            line = getLineNumberFromIndex content (nstart statement),
            message = ''Unreachable code after return statement'',
            code = lineOrEmpty lines (getLineNumberFromIndex content (nstart statement))\<rparr>]
      | None \<Rightarrow> []) \<and>
   (firstUnreachable body = Some statement \<longleftrightarrow>
     (\<exists>i. Suc i < length body \<and> ntype (body ! i) = ''ReturnStatement'' \<and>
          (\<forall>j<i. ntype (body ! j) \<noteq> ''ReturnStatement'') \<and> statement = body ! Suc i))"
  using firstUnreachable_index[of body statement] visitedBlocks_type[of _ ast]
  by (simp add: checkForDeadCode_blocks unreachableIssues_def deadCodeIssue_def Let_def
      split: option.split)

text \<open>
  The block \<^verbatim>\<open>{ return x; a(); b(); }\<close> of the claim: exactly one issue, at the line of
  \<^verbatim>\<open>a();\<close>.
\<close>

definition returnText :: string where
  "returnText = ''function f(x) {'' @ [newline] @ ''  return x;'' @ [newline] @ ''  a();'' @ [newline] @ ''  b();'' @ [newline] @ ''}''"

definition returnBlock :: node where
  "returnBlock = BlockStatement 14 43 [ReturnStatement 18 27 (Some (Identifier 25 26 ''x'')), ExpressionStatement 30 34 (CallExpression 30 33 (Identifier 30 31 ''a'') []), ExpressionStatement 37 41 (CallExpression 37 40 (Identifier 37 38 ''b'') [])]"

definition returnTree :: node where
  "returnTree = Program 0 43 [FunctionDeclaration 0 43 (Some (Identifier 9 10 ''f'')) [Identifier 11 12 ''x''] returnBlock]"

lemma returnTree_blocks: "visitedBlocks returnTree = [returnBlock]"
  by (simp add: visitedBlocks_def returnTree_def returnBlock_def simpleCalls.simps
      cong: map_weak_cong)

theorem unreachable_after_return_witness:
  "checkForDeadCode returnTree returnText ''f.js'' (split_newline returnText) [] =
     [\<lparr>type = ''Dead Code'', filePath = ''f.js'', line = 3,
       message = ''Unreachable code after return statement'', code = ''  a();''\<rparr>]"
  using unreachable_after_return[of returnTree returnText "''f.js''" "split_newline returnText" "[]"
      14 43 "blockBody returnBlock"]
  by (simp add: returnTree_blocks returnBlock_def firstUnreachable_def returnText_def newline_def
      getLineNumberFromIndex_def lineOrEmpty_def)

text \<open>
  C2 as stated fails where the \<^verbatim>\<open>return\<close> is the last statement: the block
  \<^verbatim>\<open>{ a(); return x; }\<close> has more than one statement and a \<^verbatim>\<open>return\<close> at its top
  level, and no issue is emitted for it.
\<close>

definition lastText :: string where
  "lastText = ''function h(x) {'' @ [newline] @ ''  a();'' @ [newline] @ ''  return x;'' @ [newline] @ ''}''"

definition lastBlock :: node where
  "lastBlock = BlockStatement 14 36 [ExpressionStatement 18 22 (CallExpression 18 21 (Identifier 18 19 ''a'') []), ReturnStatement 25 34 (Some (Identifier 32 33 ''x''))]"

definition lastTree :: node where
  "lastTree = Program 0 36 [FunctionDeclaration 0 36 (Some (Identifier 9 10 ''h'')) [Identifier 11 12 ''x''] lastBlock]"

theorem unreachable_return_last_counterexample:
  "visitedBlocks lastTree = [lastBlock] \<and>
   1 < length (blockBody lastBlock) \<and>
   ntype (blockBody lastBlock ! 1) = ''ReturnStatement'' \<and>
   checkForDeadCode lastTree lastText ''h.js'' (split_newline lastText) [] = []"
proof -
  have "visitedBlocks lastTree = [lastBlock]"
    by (simp add: visitedBlocks_def lastTree_def lastBlock_def simpleCalls.simps
        cong: map_weak_cong)
  moreover have "checkForDeadCode lastTree lastText ''h.js'' (split_newline lastText) [] = []"
    by (simp add: checkForDeadCode_def lastTree_def lastBlock_def simple_c.simps
        deadCodeVisitors_def cong: fold_weak_cong)
  ultimately show ?thesis by (simp add: lastBlock_def)
qed

lemma digitChar_digit: "digitChar d \<in> set ''0123456789''"
  unfolding digitChar_def by (rule nth_mem) simp

lemma showNat_digits: "showNat n \<noteq> [] \<and> set (showNat n) \<subseteq> set ''0123456789''"
proof (induction n rule: showNat.induct)
  case (1 n)
  show ?case
  proof (cases "n < 10")
    case True
    then show ?thesis using digitChar_digit[of n] by (subst showNat.simps, subst showNat.simps) simp
  next
    case False
    with 1 show ?thesis
      using digitChar_digit[of "n mod 10"] by (subst showNat.simps, subst showNat.simps) simp
  qed
qed

lemma str_includes_subset: "str_includes s t \<Longrightarrow> set t \<subseteq> set s"
proof (induction s)
  case Nil
  then show ?case by simp
next
  case (Cons c cs)
  from Cons.prems have "take (length t) (c # cs) = t \<or> str_includes cs t" by simp
  then show ?case
  proof
    assume "take (length t) (c # cs) = t"
    then have "set t = set (take (length t) (c # cs))" by simp
    also have "\<dots> \<subseteq> set (c # cs)" by (rule set_take_subset)
    finally show ?thesis .
  next
    assume "str_includes cs t"
    with Cons.IH show ?thesis by auto
  qed
qed

lemma no_number_in_dead_code_message:
  "\<not> str_includes ''Unreachable code after return statement'' (showNat n)"
proof
  assume "str_includes ''Unreachable code after return statement'' (showNat n)"
  then have sub: "set (showNat n) \<subseteq> set ''Unreachable code after return statement''"
    by (rule str_includes_subset)
  from showNat_digits[of n] obtain c where c: "c \<in> set (showNat n)" "c \<in> set ''0123456789''"
    by (cases "showNat n") auto
  with sub have "c \<in> set ''Unreachable code after return statement''" by blast
  with c(2) show False by auto
qed

text \<open>
  C3, as amended. Every issue the dead-code detector appends has the type
  \<^verbatim>\<open>Dead Code\<close> and the fixed message \<^verbatim>\<open>Unreachable code after return statement\<close>;
  the message contains no number, so it does not name the line of the \<^verbatim>\<open>return\<close>
  (the source computes \<^verbatim>\<open>returnLine\<close> for its console log only).
\<close>

theorem dead_code_message:
  "\<forall>i \<in> set (drop (length issues) (checkForDeadCode ast content fp lines issues)).
     type i = ''Dead Code'' \<and>
     message i = ''Unreachable code after return statement'' \<and>
     (\<forall>n. \<not> str_includes (message i) (showNat n))"
proof -
  have "type i = ''Dead Code'' \<and> message i = ''Unreachable code after return statement''"
    if "i \<in> set (unreachableIssues content fp lines b)" for i b
    using that by (auto simp: unreachableIssues_def deadCodeIssue_def Let_def split: option.splits)
  then show ?thesis
    using no_number_in_dead_code_message by (auto simp: checkForDeadCode_blocks)
qed

text \<open>The issue of the block \<^verbatim>\<open>{ return x; a(); b(); }\<close>, whose \<^verbatim>\<open>return\<close> is on line 2.\<close>

theorem dead_code_message_witness:
  "drop (length ([] :: issue list))
     (checkForDeadCode returnTree returnText ''f.js'' (split_newline returnText) []) =
     [\<lparr>type = ''Dead Code'', filePath = ''f.js'', line = 3,
       message = ''Unreachable code after return statement'', code = ''  a();''\<rparr>] \<and>
   \<not> str_includes ''Unreachable code after return statement'' (showNat 2)"
  using dead_code_message[of "[]" returnTree returnText "''f.js''" "split_newline returnText"]
  by (simp add: checkForDeadCode_blocks returnTree_blocks unreachableIssues_def returnBlock_def
      firstUnreachable_def deadCodeIssue_def returnText_def newline_def
      getLineNumberFromIndex_def lineOrEmpty_def)

text \<open>
  C3 as stated fails on that block: the \<^verbatim>\<open>return\<close> is on line 2 and the message of
  the issue does not contain \<^verbatim>\<open>2\<close>.
\<close>

theorem dead_code_message_counterexample:
  "map message (checkForDeadCode returnTree returnText ''f.js'' (split_newline returnText) []) =
     [''Unreachable code after return statement''] \<and>
   ntype (blockBody returnBlock ! 0) = ''ReturnStatement'' \<and>
   getLineNumberFromIndex returnText (nstart (blockBody returnBlock ! 0)) = 2 \<and>
   showNat 2 = ''2'' \<and>
   \<not> str_includes ''Unreachable code after return statement'' ''2''"
  by (simp add: checkForDeadCode_blocks returnTree_blocks unreachableIssues_def returnBlock_def
      firstUnreachable_def deadCodeIssue_def returnText_def newline_def
      getLineNumberFromIndex_def showNat.simps digitChar_def)

section \<open>Unused declarations: the table and the references\<close>

text \<open>
  The names the report skips; the issue of one record; the table after the first pass and
  after both passes. \<open>declarationList\<close> lists the declarations in the order in which the
  first pass meets them (one entry for every variable declarator whose \<^verbatim>\<open>id\<close> is an
  identifier and for every function declaration with a name), \<open>referencedList\<close> the
  names of the identifiers the second pass counts as references: the identifiers the walk
  visits under the type \<^verbatim>\<open>Identifier\<close>, that is, in expression position.
\<close>

definition specialNames :: "string set" where
  "specialNames = {''exports'', ''module'', ''require''}"

definition unusedIssue :: "string \<Rightarrow> string list \<Rightarrow> string \<times> info \<Rightarrow> issue" where
  "unusedIssue fp lines entry =
     \<lparr>type = ''Unused '' @ infoType (snd entry), filePath = fp, line = infoLine (snd entry),
      message = ''Unused '' @ toLowerCase (infoType (snd entry)) @ '' '' @ [quote] @ fst entry @ [quote],
      code = lineOrEmpty lines (infoLine (snd entry))\<rparr>"

definition declarationTable :: "node \<Rightarrow> string \<Rightarrow> declarations" where
  "declarationTable ast content = simple_c (declarationVisitors content) ast None []"

definition resolvedDeclarations :: "node \<Rightarrow> string \<Rightarrow> declarations" where
  "resolvedDeclarations ast content =
     ancestor_c referenceVisitors ast None [] (declarationTable ast content)"







lemma reportUnused_issue:
  "reportUnused fp lines entry issues =
     issues @ (if fst entry \<notin> specialNames \<and> \<not> used (snd entry)
               then [unusedIssue fp lines entry] else [])"
  by (simp add: reportUnused_def unusedIssue_def specialNames_def Let_def)

lemma fold_reportUnused:
  "fold (reportUnused fp lines) decls issues =
     issues @ map (unusedIssue fp lines)
       (filter (\<lambda>entry. fst entry \<notin> specialNames \<and> \<not> used (snd entry)) decls)"
  by (induction decls arbitrary: issues) (simp_all add: reportUnused_issue)

lemma checkForUnusedCode_report:
  "checkForUnusedCode ast content fp lines issues =
     issues @ map (unusedIssue fp lines)
       (filter (\<lambda>entry. fst entry \<notin> specialNames \<and> \<not> used (snd entry))
          (resolvedDeclarations ast content))"
  by (simp add: checkForUnusedCode_def resolvedDeclarations_def declarationTable_def
      fold_reportUnused Let_def)




















lemma toLowerCase_kinds: "toLowerCase ''Variable'' = ''variable''" "toLowerCase ''Function'' = ''function''"
  by code_simp+













text \<open>
  C10. The report skips exactly the names \<^verbatim>\<open>exports\<close>, \<^verbatim>\<open>module\<close> and
  \<^verbatim>\<open>require\<close>: the issues the detector appends are those of the records, after both
  passes, that are not marked used and whose name is none of the three, one issue each; a
  record with one of the three names yields no issue even when it is not marked used, and
  an unmarked record with any other name yields its issue.
\<close>

theorem exclusion_set_exact:
  "checkForUnusedCode ast content fp lines issues =
     issues @ map (unusedIssue fp lines)
       (filter (\<lambda>entry. fst entry \<notin> {''exports'', ''module'', ''require''} \<and> \<not> used (snd entry))
          (resolvedDeclarations ast content)) \<and>
   reportUnused fp lines (name, decl) issues =
     (if name \<in> {''exports'', ''module'', ''require''} \<or> used decl then issues
      else issues @ [unusedIssue fp lines (name, decl)])"
  using checkForUnusedCode_report[of ast content fp lines issues]
  by (simp add: specialNames_def reportUnused_issue)

text \<open>Two unreferenced variables, \<^verbatim>\<open>module\<close> and \<^verbatim>\<open>other\<close>: one issue, for \<^verbatim>\<open>other\<close>.\<close>

definition moduleText :: string where
  "moduleText = ''var module = 1;'' @ [newline] @ ''var other = 2;''"

definition moduleTree :: node where
  "moduleTree = Program 0 30 [VariableDeclaration 0 15 [VariableDeclarator 4 14 (Identifier 4 10 ''module'') (Some (Literal 13 14))], VariableDeclaration 16 30 [VariableDeclarator 20 29 (Identifier 20 25 ''other'') (Some (Literal 28 29))]]"

lemma moduleTree_resolved:
  "resolvedDeclarations moduleTree moduleText =
     [(''module'', \<lparr>infoType = ''Variable'', infoLine = 1, used = False\<rparr>),
      (''other'', \<lparr>infoType = ''Variable'', infoLine = 2, used = False\<rparr>)]"
  by (simp add: resolvedDeclarations_def declarationTable_def moduleTree_def simple_c.simps
      ancestor_c.simps declarationVisitors_def referenceVisitors_def Let_def
      moduleText_def newline_def getLineNumberFromIndex_def cong: fold_weak_cong)

lemma moduleText_lines: "split_newline moduleText = [''var module = 1;'', ''var other = 2;'']"
  by (simp add: moduleText_def newline_def)

theorem exclusion_set_exact_witness:
  "checkForUnusedCode moduleTree moduleText ''m.js'' (split_newline moduleText) [] =
     [\<lparr>type = ''Unused Variable'', filePath = ''m.js'', line = 2,
       message = ''Unused variable '' @ [quote] @ ''other'' @ [quote],
       code = ''var other = 2;''\<rparr>]"
  using exclusion_set_exact[of moduleTree moduleText "''m.js''" "split_newline moduleText" "[]"]
  by (simp add: moduleTree_resolved unusedIssue_def toLowerCase_kinds moduleText_lines
      lineOrEmpty_def)

section \<open>Long functions: one visit at a time\<close>

text \<open>
  The visits of the three function-like types, the label and the name the message
  carries, and the issues of one visit. \<open>lastParent\<close> is the node
  \<^verbatim>\<open>findParentNode\<close> returns: the last declarator, assignment or property on the walk
  whose \<^verbatim>\<open>init\<close>, \<^verbatim>\<open>right\<close> or \<^verbatim>\<open>value\<close> is the function.
\<close>

definition isFunctionCall :: "string \<times> node \<Rightarrow> bool" where
  "isFunctionCall call \<longleftrightarrow>
     fst call = ''FunctionDeclaration'' \<or> fst call = ''FunctionExpression'' \<or>
     fst call = ''ArrowFunctionExpression''"

definition functionLabel :: "string \<times> node \<Rightarrow> string" where
  "functionLabel call =
     (if fst call = ''ArrowFunctionExpression'' then ''Arrow function'' else ''Function'')"

definition reportedName :: "node \<Rightarrow> string \<times> node \<Rightarrow> string" where
  "reportedName ast call =
     (if fst call = ''FunctionDeclaration'' then declaredFunctionName (snd call)
      else parentFunctionName ast (snd call))"

definition longFunctionIssues :: "node \<Rightarrow> string \<Rightarrow> string \<Rightarrow> string list \<Rightarrow> string \<times> node \<Rightarrow> issue list" where
  "longFunctionIssues ast content fp lines call =
     (if isFunctionCall call \<and> functionLength content (snd call) > 50
      then [\<lparr>type = ''Long Function'', filePath = fp,
             line = getLineNumberFromIndex content (nstart (snd call)),
             message = functionLabel call @ '' '' @ [quote] @ reportedName ast call @ [quote] @
               '' is too long ('' @ showInt (functionLength content (snd call)) @ '' lines)'',
             code = lineOrEmpty lines (getLineNumberFromIndex content (nstart (snd call)))\<rparr>]
      else [])"

definition isParentOf :: "node \<Rightarrow> string \<times> node \<times> node list \<Rightarrow> bool" where
  "isParentOf targetNode call \<longleftrightarrow>
     (fst call = ''VariableDeclarator'' \<and> nodeInit (fst (snd call)) = Some targetNode) \<or>
     (fst call = ''AssignmentExpression'' \<and> nodeRight (fst (snd call)) = Some targetNode) \<or>
     (fst call = ''Property'' \<and> nodeValue (fst (snd call)) = Some targetNode)"

definition lastParent :: "node \<Rightarrow> (string \<times> node \<times> node list) list \<Rightarrow> node option" where
  "lastParent targetNode calls =
     (case rev (filter (isParentOf targetNode) calls) of
        [] \<Rightarrow> None
      | call # _ \<Rightarrow> Some (fst (snd call)))"

lemma longFunctionVisitors_issues:
  "applyVisitor (longFunctionVisitors ast content fp lines) call issues =
     issues @ longFunctionIssues ast content fp lines call"
  by (cases call)
     (simp add: longFunctionVisitors_def longFunctionIssues_def isFunctionCall_def
       functionLabel_def reportedName_def longFunctionIssue_def MAX_FUNCTION_LENGTH_def Let_def)

lemma checkForLongFunctions_calls:
  "checkForLongFunctions ast content fp lines issues =
     issues @ concat (map (longFunctionIssues ast content fp lines) (simpleCalls ast None))"
  unfolding checkForLongFunctions_def simple_c_fold
  by (rule fold_append_each) (rule longFunctionVisitors_issues)

lemma parentVisitors_step:
  "applyAncestorVisitor (parentVisitors targetNode) call result =
     (if isParentOf targetNode call then Some (fst (snd call)) else result)"
  by (cases call) (auto simp: parentVisitors_def isParentOf_def)

lemma parentVisitors_fold:
  "fold (applyAncestorVisitor (parentVisitors targetNode)) calls result =
     (case rev (filter (isParentOf targetNode) calls) of
        [] \<Rightarrow> result
      | call # _ \<Rightarrow> Some (fst (snd call)))"
proof (induction calls rule: rev_induct)
  case Nil
  show ?case by simp
next
  case (snoc c calls)
  let ?F = "applyAncestorVisitor (parentVisitors targetNode)"
  have "fold ?F (calls @ [c]) result = ?F c (fold ?F calls result)" by simp
  also have "\<dots> = ?F c (case rev (filter (isParentOf targetNode) calls) of
        [] \<Rightarrow> result
      | call # _ \<Rightarrow> Some (fst (snd call)))"
    by (simp only: snoc)
  also have "\<dots> = (case rev (filter (isParentOf targetNode) (calls @ [c])) of
        [] \<Rightarrow> result
      | call # _ \<Rightarrow> Some (fst (snd call)))"
    by (simp add: parentVisitors_step)
  finally show ?case .
qed

lemma findParentNode_last:
  "findParentNode ast targetNode = lastParent targetNode (ancestorCalls ast None [])"
  by (simp add: findParentNode_def ancestor_c_fold parentVisitors_fold lastParent_def)

lemma simpleCalls_function_type:
  assumes "call \<in> set (simpleCalls ast None)" and "isFunctionCall call"
  shows "ntype (snd call) = fst call"
proof -
  obtain t n where c: "call = (t, n)" by (cases call)
  from assms(1) c have "t = ntype n \<or> t \<in> range overrideName"
    using simpleCalls_type[of t n ast None] by simp
  moreover have "t \<notin> range overrideName"
  proof
    assume "t \<in> range overrideName"
    then obtain ov where "t = overrideName ov" by blast
    with assms(2) c show False by (cases ov) (simp_all add: isFunctionCall_def)
  qed
  ultimately show ?thesis using c by simp
qed

text \<open>
  C5, as amended. For every function-like node the shared traversal visits (function
  declaration, function expression, arrow function) the engine appends exactly one issue
  of type \<^verbatim>\<open>Long Function\<close> if \<open>endLine - startLine\<close>, both computed by the shared
  offset-to-line mapping, exceeds 50, and none otherwise. The issue is anchored at the
  function's start line and its message states the measured length. The message names a
  function declaration by its own identifier; it names a function expression or an arrow
  function by the variable when the function is the initializer of a declarator with a
  simple name, and labels it \<^verbatim>\<open>anonymous\<close> when it is no initializer (also when it is
  the right side of an assignment or the value of a property).
\<close>

theorem long_function_issues:
  "checkForLongFunctions ast content fp lines issues =
     issues @ concat (map (longFunctionIssues ast content fp lines) (simpleCalls ast None)) \<and>
   (\<forall>call \<in> set (simpleCalls ast None). isFunctionCall call \<longrightarrow> ntype (snd call) = fst call) \<and>
   length (longFunctionIssues ast content fp lines call) =
     (if isFunctionCall call \<and>
         int (getLineNumberFromIndex content (nend (snd call))) -
         int (getLineNumberFromIndex content (nstart (snd call))) > 50
      then 1 else 0) \<and>
   reportedName ast (''FunctionDeclaration'',
       FunctionDeclaration s e (Some (Identifier is ie name)) ps b) = name \<and>
   (t \<noteq> ''FunctionDeclaration'' \<longrightarrow>
      (lastParent node (ancestorCalls ast None []) =
          Some (VariableDeclarator s' e' (Identifier is' ie' name') x) \<longrightarrow>
        reportedName ast (t, node) = name') \<and>
      (lastParent node (ancestorCalls ast None []) = None \<longrightarrow>
        reportedName ast (t, node) = ''anonymous'') \<and>
      (lastParent node (ancestorCalls ast None []) = Some parent \<and>
        ntype parent \<noteq> ''VariableDeclarator'' \<longrightarrow>
        reportedName ast (t, node) = ''anonymous''))"
proof -
  have a: "reportedName ast (''FunctionDeclaration'',
       FunctionDeclaration s e (Some (Identifier is ie name)) ps b) = name"
    by (simp add: reportedName_def declaredFunctionName_def nameText_def)
  have b: "t \<noteq> ''FunctionDeclaration'' \<Longrightarrow>
      (lastParent node (ancestorCalls ast None []) =
          Some (VariableDeclarator s' e' (Identifier is' ie' name') x) \<longrightarrow>
        reportedName ast (t, node) = name') \<and>
      (lastParent node (ancestorCalls ast None []) = None \<longrightarrow>
        reportedName ast (t, node) = ''anonymous'') \<and>
      (lastParent node (ancestorCalls ast None []) = Some parent \<and>
        ntype parent \<noteq> ''VariableDeclarator'' \<longrightarrow>
        reportedName ast (t, node) = ''anonymous'')"
    by (simp add: reportedName_def parentFunctionName_def findParentNode_last nameText_def)
  show ?thesis
    using a b simpleCalls_function_type[of _ ast]
    by (simp add: checkForLongFunctions_calls longFunctionIssues_def functionLength_def)
qed

text \<open>
  An arrow function of 51 lines that initializes the constant \<^verbatim>\<open>handler\<close>: one issue,
  naming \<^verbatim>\<open>handler\<close>.
\<close>

lemma split_newline_length: "length (split_newline s) = Suc (length (filter (\<lambda>c. c = newline) s))"
  by (induction s) (auto split: list.split)

lemma getLineNumberFromIndex_count:
  "getLineNumberFromIndex content idx = Suc (length (filter (\<lambda>c. c = newline) (take idx content)))"
  by (simp add: getLineNumberFromIndex_def split_newline_length)

lemma split_newline_first:
  "newline \<notin> set a \<Longrightarrow> split_newline (a @ newline # r) = a # split_newline r"
  by (induction a) auto

definition handlerText :: string where
  "handlerText = ''const handler = () => {'' @ [newline] @ replicate 50 newline @ ''};''"

definition handlerArrow :: node where
  "handlerArrow = ArrowFunctionExpression 16 75 [] (BlockStatement 22 75 [])"

definition handlerTree :: node where
  "handlerTree = Program 0 76 [VariableDeclaration 0 76 [VariableDeclarator 6 75 (Identifier 6 13 ''handler'') (Some handlerArrow)]]"

lemma handlerText_line:
  "lineOrEmpty (split_newline handlerText) (Suc 0) = ''const handler = () => {''"
proof -
  have "split_newline handlerText =
      ''const handler = () => {'' # split_newline (replicate 50 newline @ ''};'')"
    using split_newline_first[of "''const handler = () => {''" "replicate 50 newline @ ''};''"]
    by (simp add: handlerText_def newline_def)
  then show ?thesis by (simp add: lineOrEmpty_def)
qed

lemma handlerText_lines:
  "getLineNumberFromIndex handlerText 16 = 1" "getLineNumberFromIndex handlerText 75 = 52"
  by (simp_all add: getLineNumberFromIndex_count handlerText_def newline_def)

lemma handlerTree_calls:
  "filter isFunctionCall (simpleCalls handlerTree None) = [(''ArrowFunctionExpression'', handlerArrow)]"
  by (simp add: handlerTree_def handlerArrow_def simpleCalls.simps isFunctionCall_def
      cong: map_weak_cong)

lemma longFunctionIssues_other:
  "\<not> isFunctionCall call \<Longrightarrow> longFunctionIssues ast content fp lines call = []"
  by (simp add: longFunctionIssues_def)

lemma concat_map_filter_nonempty:
  "(\<And>x. \<not> P x \<Longrightarrow> f x = []) \<Longrightarrow> concat (map f xs) = concat (map f (filter P xs))"
  by (induction xs) auto

lemma handlerArrow_span: "nstart handlerArrow = 16" "nend handlerArrow = 75"
  by (simp_all add: handlerArrow_def)

lemma handlerTree_parent:
  "findParentNode handlerTree handlerArrow =
     Some (VariableDeclarator 6 75 (Identifier 6 13 ''handler'') (Some handlerArrow))"
  by (simp add: findParentNode_def handlerTree_def handlerArrow_def ancestor_c.simps
      parentVisitors_def Let_def cong: fold_weak_cong)

theorem long_function_issues_witness:
  "checkForLongFunctions handlerTree handlerText ''h.js'' (split_newline handlerText) [] =
     [\<lparr>type = ''Long Function'', filePath = ''h.js'', line = 1,
       message = ''Arrow function '' @ [quote] @ ''handler'' @ [quote] @ '' is too long (51 lines)'',
       code = ''const handler = () => {''\<rparr>]"
proof -
  have "checkForLongFunctions handlerTree handlerText ''h.js'' (split_newline handlerText) [] =
      concat (map (longFunctionIssues handlerTree handlerText ''h.js'' (split_newline handlerText))
        (filter isFunctionCall (simpleCalls handlerTree None)))"
    using long_function_issues[of handlerTree handlerText "''h.js''" "split_newline handlerText" "[]"]
      concat_map_filter_nonempty[of isFunctionCall
        "longFunctionIssues handlerTree handlerText ''h.js'' (split_newline handlerText)"
        "simpleCalls handlerTree None"]
    by (simp add: longFunctionIssues_other)
  then show ?thesis
    by (simp add: handlerTree_calls longFunctionIssues_def isFunctionCall_def functionLabel_def
        reportedName_def parentFunctionName_def handlerTree_parent nameText_def
        functionLength_def handlerText_lines handlerText_line handlerArrow_span
        showInt_def showNat.simps digitChar_def)
qed

text \<open>
  C5 as stated fails for a function declaration: \<^verbatim>\<open>function veryLong() { ... }\<close> of 51
  lines is the initializer of no variable, and the message names it \<^verbatim>\<open>veryLong\<close>,
  not \<^verbatim>\<open>anonymous\<close>.
\<close>

definition veryLongText :: string where
  "veryLongText = ''function veryLong() {'' @ [newline] @ replicate 50 newline @ ''}''"

definition veryLongFunction :: node where
  "veryLongFunction = FunctionDeclaration 0 73 (Some (Identifier 9 17 ''veryLong'')) [] (BlockStatement 20 73 [])"

definition veryLongTree :: node where
  "veryLongTree = Program 0 73 [veryLongFunction]"

theorem long_function_counterexample:
  "map message
     (checkForLongFunctions veryLongTree veryLongText ''v.js'' (split_newline veryLongText) []) =
     [''Function '' @ [quote] @ ''veryLong'' @ [quote] @ '' is too long (51 lines)''] \<and>
   filter (\<lambda>call. nodeInit (snd call) = Some veryLongFunction) (simpleCalls veryLongTree None) = [] \<and>
   \<not> str_includes (''Function '' @ [quote] @ ''veryLong'' @ [quote] @ '' is too long (51 lines)'')
       ''anonymous''"
proof -
  have l: "getLineNumberFromIndex veryLongText 0 = 1" "getLineNumberFromIndex veryLongText 73 = 52"
    by (simp_all add: getLineNumberFromIndex_count veryLongText_def newline_def)
  have c: "filter isFunctionCall (simpleCalls veryLongTree None) =
      [(''FunctionDeclaration'', veryLongFunction)]"
    by (simp add: veryLongTree_def veryLongFunction_def simpleCalls.simps isFunctionCall_def
        cong: map_weak_cong)
  have "checkForLongFunctions veryLongTree veryLongText ''v.js'' (split_newline veryLongText) [] =
      concat (map (longFunctionIssues veryLongTree veryLongText ''v.js'' (split_newline veryLongText))
        (filter isFunctionCall (simpleCalls veryLongTree None)))"
    using concat_map_filter_nonempty[of isFunctionCall
        "longFunctionIssues veryLongTree veryLongText ''v.js'' (split_newline veryLongText)"
        "simpleCalls veryLongTree None"]
    by (simp add: checkForLongFunctions_calls longFunctionIssues_other)
  then have "map message
     (checkForLongFunctions veryLongTree veryLongText ''v.js'' (split_newline veryLongText) []) =
     [''Function '' @ [quote] @ ''veryLong'' @ [quote] @ '' is too long (51 lines)'']"
    by (simp add: c longFunctionIssues_def isFunctionCall_def functionLabel_def
        reportedName_def declaredFunctionName_def nameText_def functionLength_def l
        veryLongFunction_def showInt_def showNat.simps digitChar_def)
  moreover have "filter (\<lambda>call. nodeInit (snd call) = Some veryLongFunction)
      (simpleCalls veryLongTree None) = []"
    by (simp add: veryLongTree_def veryLongFunction_def simpleCalls.simps cong: map_weak_cong)
  moreover have "\<not> str_includes (''Function '' @ [quote] @ ''veryLong'' @ [quote] @ '' is too long (51 lines)'')
       ''anonymous''"
    by (simp add: quote_def)
  ultimately show ?thesis by simp
qed

section \<open>The result for one file\<close>

text \<open>
  C6. If the parser fails on a file, the result of \<^verbatim>\<open>scanFile\<close> for that file is
  exactly one issue of type \<^verbatim>\<open>Syntax Error\<close>, anchored at the line of the parser's
  located error, or at line 1 when the error has no location; no other detector runs, the
  comment scanner included.
\<close>

theorem parse_failure_single_issue:
  "readFile fp = Inr content \<Longrightarrow> parse content = ParseError loc msg \<Longrightarrow>
   scanFile readFile parse fp =
     Inr [\<lparr>type = ''Syntax Error'', filePath = fp,
           line = (case loc of Some l \<Rightarrow> l | None \<Rightarrow> 1),
           message = ''Syntax error: '' @ msg,
           code = lineOrEmpty (split_newline content) (case loc of Some l \<Rightarrow> l | None \<Rightarrow> 1)\<rparr>]"
  by (simp add: scanFile_def syntaxErrorIssue_def Let_def)

text \<open>
  A text whose second line does not parse and whose third line holds a pending-work
  comment: one issue, at the reported line, and at line 1 for an error without location.
\<close>

definition brokenText :: string where
  "brokenText = ''var a = 1;'' @ [newline] @ ''var b = ;'' @ [newline] @ ''// TODO: fix later''"

theorem parse_failure_single_issue_witness:
  "scanFile (\<lambda>p. Inr brokenText) (\<lambda>c. ParseError (Some 2) ''Unexpected token (2:8)'') ''b.js'' =
     Inr [\<lparr>type = ''Syntax Error'', filePath = ''b.js'', line = 2,
           message = ''Syntax error: Unexpected token (2:8)'', code = ''var b = ;''\<rparr>] \<and>
   scanFile (\<lambda>p. Inr brokenText) (\<lambda>c. ParseError None ''Unexpected token'') ''b.js'' =
     Inr [\<lparr>type = ''Syntax Error'', filePath = ''b.js'', line = 1,
           message = ''Syntax error: Unexpected token'', code = ''var a = 1;''\<rparr>]"
  using parse_failure_single_issue[of "\<lambda>p. Inr brokenText" "''b.js''" brokenText
      "\<lambda>c. ParseError (Some 2) ''Unexpected token (2:8)''" "Some 2" "''Unexpected token (2:8)''"]
    parse_failure_single_issue[of "\<lambda>p. Inr brokenText" "''b.js''" brokenText
      "\<lambda>c. ParseError None ''Unexpected token''" None "''Unexpected token''"]
  by (simp add: brokenText_def newline_def lineOrEmpty_def)




section \<open>Pending-work comments: the matches of the pattern\<close>















lemma str_includes_self: "str_includes (t @ b) t"
proof (cases "t @ b")
  case Nil
  then show ?thesis by simp
next
  case (Cons a l)
  have "take (length t) (t @ b) = t" by simp
  then show ?thesis unfolding Cons by simp
qed

lemma str_includes_append: "str_includes (a @ t @ b) t"
  by (induction a) (simp_all add: str_includes_self)

lemma str_includes_middle: "str_includes (a @ t @ b) t"
  by (rule str_includes_append)














section \<open>Lines and snippets of the issues\<close>















end
